theory Spec2Isabelle
  imports
    Main
    "HOL-Library.Word"
    "HOL-Library.Sublist"
    "HOL-Library.Char_ord"
    "HOL-Library.List_Lexorder"
    "HOL-Library.Multiset"
begin

section \<open>The descriptors of package analyzer\<close>

text \<open>
  The descriptor structs of the analyzer, one record each. Go lets several structs share a
  field name; the records prefix each field with the initials of its struct. A Go string
  is a byte sequence, here \<open>string\<close>; a nil slice and an empty slice are both \<open>[]\<close>.
\<close>

record Position =
  Filename :: string
  Line :: int
  Column :: int

record ParamInfo =
  pa_Name :: string
  pa_Type :: string

record MethodInfo =
  mi_Name :: string
  mi_Signature :: string
  mi_Doc :: string
  mi_Receiver :: string
  mi_Parameters :: "ParamInfo list"
  mi_Results :: "ParamInfo list"
  mi_Position :: Position
  mi_Exported :: bool
  mi_IsPointer :: bool

record FieldInfo =
  fi_Name :: string
  fi_Type :: string
  fi_Tag :: string
  fi_Doc :: string
  fi_Position :: Position
  fi_Exported :: bool
  fi_Embedded :: bool

record TypeInfo =
  ti_Name :: string
  ti_Kind :: string
  ti_Package :: string
  ti_ImportPath :: string
  ti_Doc :: string
  ti_Methods :: "MethodInfo list"
  ti_Fields :: "FieldInfo list"
  ti_Position :: Position
  ti_Exported :: bool
  ti_Size :: int
  ti_Alignment :: int

record FunctionInfo =
  fn_Name :: string
  fn_Signature :: string
  fn_Package :: string
  fn_Parameters :: "ParamInfo list"
  fn_Results :: "ParamInfo list"
  fn_Position :: Position
  fn_Exported :: bool
  fn_IsMethod :: bool

record VariableInfo =
  vi_Name :: string
  vi_Type :: string
  vi_Package :: string
  vi_Position :: Position
  vi_Exported :: bool

record ConstantInfo =
  ci_Name :: string
  ci_Type :: string
  ci_Value :: string
  ci_Package :: string
  ci_Position :: Position
  ci_Exported :: bool

record PackageInfo =
  pi_Name :: string
  pi_ImportPath :: string
  pi_Doc :: string
  pi_Files :: "string list"
  pi_IsMain :: bool

record AnalysisMetrics =
  TotalTypes :: nat
  TotalFunctions :: nat
  TotalPackages :: nat

record AnalysisResult =
  ar_Types :: "TypeInfo list"
  ar_Functions :: "FunctionInfo list"
  ar_Variables :: "VariableInfo list"
  ar_Constants :: "ConstantInfo list"
  ar_Packages :: "PackageInfo list"
  ar_Metrics :: AnalysisMetrics

section \<open>The objects handed over by go/types and go/doc\<close>

text \<open>
  The analyzer reads the semantic objects of go/types through their accessors only. Each
  handle is a record of what those accessors return. A source position is stored already
  resolved through the file set (\<open>a.fset.Position(obj.Pos())\<close>).
\<close>

record Var =
  v_Name :: string
  v_Type :: string
  v_Exported :: bool
  v_Embedded :: bool
  v_Pos :: Position

record Signature =
  sig_String :: string
  sig_Recv :: "Var option"
  sig_Params :: "Var list"
  sig_Results :: "Var list"

record Func =
  f_Name :: string
  f_Exported :: bool
  f_Pos :: Position
  f_Sig :: Signature

datatype SelectionKind = FieldVal | MethodVal | MethodExpr

record Selection =
  sel_Kind :: SelectionKind
  sel_Obj :: Func
  sel_Indirect :: bool

text \<open>
  The underlying shape of a type, one constructor for each case of the type switch in
  \<open>LookupType\<close>. A struct carries its fields and its tag slice, an interface its
  method list (\<open>Method(i)\<close> for \<open>i < NumMethods()\<close>).
\<close>

datatype Underlying =
    Struct "Var list" "string list"
  | Interface "Func list"
  | Slice
  | Array
  | Map
  | Chan
  | Pointer
  | SignatureT
  | Other

text \<open>
  A \<open>types.Type\<close> as the analyzer sees it. \<open>t_IsPointer\<close> is the outcome of the type
  assertion \<open>t.(*types.Pointer)\<close>; \<open>t_MethodSet\<close> is \<open>types.NewMethodSet(t)\<close>,
  \<open>t_PtrMethodSet\<close> is \<open>types.NewMethodSet(types.NewPointer(t))\<close>; size and alignment
  are those of \<open>types.SizesFor("gc", "amd64")\<close>.
\<close>

record GoType =
  t_String :: string
  t_Underlying :: Underlying
  t_IsPointer :: bool
  t_MethodSet :: "Selection list"
  t_PtrMethodSet :: "Selection list"
  t_Sizeof :: int
  t_Alignof :: int

datatype ObjectClass = TypeNameC | FuncC Signature | VarC | ConstC string

record Object =
  o_Name :: string
  o_Class :: ObjectClass
  o_Exported :: bool
  o_Pos :: Position
  o_Type :: GoType

text \<open>
  A package with its top-level scope: the objects of the scope in the order in which
  \<open>Scope().Names()\<close> lists their names. \<open>Lookup\<close> finds the object of a name.
\<close>

record Package =
  p_Path :: string
  p_Scope :: "Object list"

definition Names :: "Package \<Rightarrow> string list" where
  "Names pk = map o_Name (p_Scope pk)"

definition Lookup :: "Package \<Rightarrow> string \<Rightarrow> Object option" where
  "Lookup pk name = find (\<lambda>obj. o_Name obj = name) (p_Scope pk)"

record Example =
  ex_Name :: string
  ex_Code :: string
  ex_Doc :: string

record DocType =
  dt_Name :: string
  dt_Doc :: string
  dt_Examples :: "Example list"

record DocFunc =
  df_Name :: string
  df_Examples :: "Example list"

record DocPackage =
  dp_Name :: string
  dp_Doc :: string
  dp_Types :: "DocType list"
  dp_Funcs :: "DocFunc list"
  dp_Examples :: "Example list"

section \<open>The analyzer\<close>

text \<open>
  The state of an \<open>Analyzer\<close>: its three maps and the \<open>initialized\<close> flag. The
  file set lives in the resolved positions; path, logger and configuration are read by the
  front end only.
\<close>

record Analyzer =
  pkgs :: "string \<rightharpoonup> Package"
  docPkgs :: "string \<rightharpoonup> DocPackage"
  files :: "string \<rightharpoonup> string list"
  initialized :: bool

datatype error =
    NotInitialized
  | TypeNotFound string
  | NoExamplesFound string
  | PackageNotFound string
  | InitializeFailed string

text \<open>
  Go visits the keys of a map in an order that the language leaves open, and that may
  change from one \<open>range\<close> statement to the next. Every function that ranges over a map
  therefore takes the order of that visit as an argument; \<open>iteration_of m ord\<close> says
  that \<open>ord\<close> is such an order for \<open>m\<close>: every key once.
\<close>

definition iteration_of :: "(string \<rightharpoonup> 'v) \<Rightarrow> string list \<Rightarrow> bool" where
  "iteration_of m ord \<longleftrightarrow> distinct ord \<and> set ord = dom m"

subsection \<open>Positions and parameters\<close>

definition zeroPosition :: Position where
  "zeroPosition = \<lparr>Filename = [], Line = 0, Column = 0\<rparr>"

text \<open>\<open>token.Position.IsValid\<close>: the line number is positive.\<close>

definition IsValid :: "Position \<Rightarrow> bool" where
  "IsValid pos \<longleftrightarrow> Line pos > 0"

text \<open>
  The block \<open>if pos := a.fset.Position(x.Pos()); pos.IsValid() { ... }\<close>: a valid
  position is copied field by field, otherwise the descriptor keeps the zero value.
\<close>

definition positionOf :: "Position \<Rightarrow> Position" where
  "positionOf pos =
     (if IsValid pos
      then \<lparr>Filename = Filename pos, Line = Line pos, Column = Column pos\<rparr>
      else zeroPosition)"

definition analyzeSignatureParams :: "Var list \<Rightarrow> ParamInfo list" where
  "analyzeSignatureParams tuple =
     map (\<lambda>param. \<lparr>pa_Name = v_Name param, pa_Type = v_Type param\<rparr>) tuple"

subsection \<open>Struct fields and interface methods\<close>

text \<open>\<open>Struct.Tag(i)\<close>: the tag slice may be shorter than the field list.\<close>

definition Tag :: "string list \<Rightarrow> nat \<Rightarrow> string" where
  "Tag tags i = (if i < length tags then tags ! i else [])"

definition fieldInfo :: "Var list \<Rightarrow> string list \<Rightarrow> nat \<Rightarrow> FieldInfo" where
  "fieldInfo fs tags i =
     \<lparr>fi_Name = v_Name (fs ! i),
      fi_Type = v_Type (fs ! i),
      fi_Tag = Tag tags i,
      fi_Doc = [],
      fi_Position = positionOf (v_Pos (fs ! i)),
      fi_Exported = v_Exported (fs ! i),
      fi_Embedded = v_Embedded (fs ! i)\<rparr>"

text \<open>
  \<open>analyzeStructFields\<close>: the loop \<open>for i := 0; i < NumFields(); i++\<close> appends one
  descriptor for each index, so the index never leaves the field list.
\<close>

definition analyzeStructFields :: "Var list \<Rightarrow> string list \<Rightarrow> FieldInfo list" where
  "analyzeStructFields fs tags = map (fieldInfo fs tags) [0..<length fs]"

definition interfaceMethodInfo :: "Func \<Rightarrow> MethodInfo" where
  "interfaceMethodInfo method =
     \<lparr>mi_Name = f_Name method,
      mi_Signature = sig_String (f_Sig method),
      mi_Doc = [],
      mi_Receiver = [],
      mi_Parameters = analyzeSignatureParams (sig_Params (f_Sig method)),
      mi_Results = analyzeSignatureParams (sig_Results (f_Sig method)),
      mi_Position = positionOf (f_Pos method),
      mi_Exported = f_Exported method,
      mi_IsPointer = False\<rparr>"

definition analyzeInterfaceMethods :: "Func list \<Rightarrow> MethodInfo list" where
  "analyzeInterfaceMethods ms = map interfaceMethodInfo ms"

subsection \<open>The method set of a type\<close>

text \<open>\<open>if recv := sig.Recv(); recv != nil { Receiver = recv.Type().String() }\<close>\<close>

definition receiverOf :: "Signature \<Rightarrow> string" where
  "receiverOf sg = (case sig_Recv sg of None \<Rightarrow> [] | Some recv \<Rightarrow> v_Type recv)"

text \<open>
  The descriptor built in the first loop of \<open>getTypeMethods\<close> (the method set of the
  type itself) and the one built in the second loop (the method set of its pointer type).
  They differ in \<open>IsPointer\<close>: the first takes \<open>selection.Indirect()\<close>, the second is
  always true.
\<close>

definition valueMethodInfo :: "Selection \<Rightarrow> MethodInfo" where
  "valueMethodInfo selection =
     (let method = sel_Obj selection; sg = f_Sig method in
      \<lparr>mi_Name = f_Name method,
       mi_Signature = sig_String sg,
       mi_Doc = [],
       mi_Receiver = receiverOf sg,
       mi_Parameters = analyzeSignatureParams (sig_Params sg),
       mi_Results = analyzeSignatureParams (sig_Results sg),
       mi_Position = positionOf (f_Pos method),
       mi_Exported = f_Exported method,
       mi_IsPointer = sel_Indirect selection\<rparr>)"

definition pointerMethodInfo :: "Selection \<Rightarrow> MethodInfo" where
  "pointerMethodInfo selection =
     (let method = sel_Obj selection; sg = f_Sig method in
      \<lparr>mi_Name = f_Name method,
       mi_Signature = sig_String sg,
       mi_Doc = [],
       mi_Receiver = receiverOf sg,
       mi_Parameters = analyzeSignatureParams (sig_Params sg),
       mi_Results = analyzeSignatureParams (sig_Results sg),
       mi_Position = positionOf (f_Pos method),
       mi_Exported = f_Exported method,
       mi_IsPointer = True\<rparr>)"

text \<open>The first loop: every selection of kind \<open>MethodVal\<close> is appended.\<close>

fun valuePass :: "MethodInfo list \<Rightarrow> Selection list \<Rightarrow> MethodInfo list" where
  "valuePass methods [] = methods"
| "valuePass methods (selection # rest) =
     (if sel_Kind selection \<noteq> MethodVal then valuePass methods rest
      else valuePass (methods @ [valueMethodInfo selection]) rest)"

text \<open>
  The second loop: a selection whose method name is already among \<open>methods\<close> is
  skipped (the linear scan that sets \<open>found\<close>), any other is appended.
\<close>

fun pointerPass :: "MethodInfo list \<Rightarrow> Selection list \<Rightarrow> MethodInfo list" where
  "pointerPass methods [] = methods"
| "pointerPass methods (selection # rest) =
     (if sel_Kind selection \<noteq> MethodVal then pointerPass methods rest
      else if list_ex (\<lambda>existing. mi_Name existing = f_Name (sel_Obj selection)) methods
      then pointerPass methods rest
      else pointerPass (methods @ [pointerMethodInfo selection]) rest)"

text \<open>
  \<open>sort.Slice(methods, func(i, j) bool { return methods[i].Name < methods[j].Name })\<close>.
  Go compares strings byte by byte, which is the lexicographic order of \<open>string\<close> here.
  The library promises a permutation ordered by the comparison and leaves the order of
  equal names open; the model is the insertion sort that the library runs on short
  slices: each element in turn is put into the sorted part before it, behind the
  elements whose name is not greater.
\<close>

fun insertByName :: "MethodInfo \<Rightarrow> MethodInfo list \<Rightarrow> MethodInfo list" where
  "insertByName x [] = [x]"
| "insertByName x (y # ys) =
     (if mi_Name x < mi_Name y then x # y # ys else y # insertByName x ys)"

definition sortByName :: "MethodInfo list \<Rightarrow> MethodInfo list" where
  "sortByName methods = foldl (\<lambda>sorted x. insertByName x sorted) [] methods"

definition getTypeMethods :: "GoType \<Rightarrow> MethodInfo list" where
  "getTypeMethods t =
     (let methods = valuePass [] (t_MethodSet t);
          methods = (if \<not> t_IsPointer t then pointerPass methods (t_PtrMethodSet t)
                     else methods)
      in sortByName methods)"

subsection \<open>LookupType and ListMethods\<close>

text \<open>
  The loop \<open>for pkgName, pkg := range a.pkgs\<close> of \<open>LookupType\<close> up to the object it
  stops at: the first package of the visit whose scope holds the name. The object need
  not be a type name; the loop takes whatever the scope returns.
\<close>

fun lookupObject :: "Analyzer \<Rightarrow> string list \<Rightarrow> string \<Rightarrow> (string \<times> Package \<times> Object) option" where
  "lookupObject a [] typeName = None"
| "lookupObject a (pkgName # rest) typeName =
     (case pkgs a pkgName of
        None \<Rightarrow> lookupObject a rest typeName
      | Some pkg \<Rightarrow>
          (case Lookup pkg typeName of
             None \<Rightarrow> lookupObject a rest typeName
           | Some obj \<Rightarrow> Some (pkgName, pkg, obj)))"

definition docOfType :: "Analyzer \<Rightarrow> string \<Rightarrow> string \<Rightarrow> string" where
  "docOfType a pkgName typeName =
     (case docPkgs a pkgName of
        None \<Rightarrow> []
      | Some docPkg \<Rightarrow>
          (case find (\<lambda>docType. dt_Name docType = typeName) (dp_Types docPkg) of
             None \<Rightarrow> []
           | Some docType \<Rightarrow> dt_Doc docType))"

text \<open>The type switch on \<open>obj.Type().Underlying()\<close>.\<close>

fun analyzeUnderlying :: "TypeInfo \<Rightarrow> Underlying \<Rightarrow> TypeInfo" where
  "analyzeUnderlying typeInfo (Struct fs tags) =
     typeInfo\<lparr>ti_Kind := ''struct'', ti_Fields := analyzeStructFields fs tags\<rparr>"
| "analyzeUnderlying typeInfo (Interface ms) =
     typeInfo\<lparr>ti_Kind := ''interface'', ti_Methods := analyzeInterfaceMethods ms\<rparr>"
| "analyzeUnderlying typeInfo Slice = typeInfo\<lparr>ti_Kind := ''slice''\<rparr>"
| "analyzeUnderlying typeInfo Array = typeInfo\<lparr>ti_Kind := ''array''\<rparr>"
| "analyzeUnderlying typeInfo Map = typeInfo\<lparr>ti_Kind := ''map''\<rparr>"
| "analyzeUnderlying typeInfo Chan = typeInfo\<lparr>ti_Kind := ''channel''\<rparr>"
| "analyzeUnderlying typeInfo Pointer = typeInfo\<lparr>ti_Kind := ''pointer''\<rparr>"
| "analyzeUnderlying typeInfo SignatureT = typeInfo\<lparr>ti_Kind := ''function''\<rparr>"
| "analyzeUnderlying typeInfo Other = typeInfo\<lparr>ti_Kind := ''other''\<rparr>"

text \<open>
  The body of the loop once an object is found, statement by statement: the literal, the
  position, the documentation, the type switch, the assignment of \<open>getTypeMethods\<close> to
  \<open>Methods\<close>, size and alignment.
\<close>

definition describeType :: "Analyzer \<Rightarrow> string \<Rightarrow> string \<Rightarrow> Package \<Rightarrow> Object \<Rightarrow> TypeInfo" where
  "describeType a typeName pkgName pkg obj =
     (let typeInfo = \<lparr>ti_Name = typeName, ti_Kind = [], ti_Package = pkgName,
                      ti_ImportPath = p_Path pkg, ti_Doc = [], ti_Methods = [],
                      ti_Fields = [], ti_Position = zeroPosition,
                      ti_Exported = o_Exported obj, ti_Size = 0, ti_Alignment = 0\<rparr>;
          typeInfo = typeInfo\<lparr>ti_Position := positionOf (o_Pos obj)\<rparr>;
          typeInfo = typeInfo\<lparr>ti_Doc := docOfType a pkgName typeName\<rparr>;
          typeInfo = analyzeUnderlying typeInfo (t_Underlying (o_Type obj));
          typeInfo = typeInfo\<lparr>ti_Methods := getTypeMethods (o_Type obj)\<rparr>;
          typeInfo = typeInfo\<lparr>ti_Size := t_Sizeof (o_Type obj),
                              ti_Alignment := t_Alignof (o_Type obj)\<rparr>
      in typeInfo)"

definition LookupType :: "Analyzer \<Rightarrow> string list \<Rightarrow> string \<Rightarrow> error + TypeInfo" where
  "LookupType a ord typeName =
     (if \<not> initialized a then Inl NotInitialized
      else case lookupObject a ord typeName of
             Some (pkgName, pkg, obj) \<Rightarrow> Inr (describeType a typeName pkgName pkg obj)
           | None \<Rightarrow> Inl (TypeNotFound typeName))"

definition ListMethods :: "Analyzer \<Rightarrow> string list \<Rightarrow> string \<Rightarrow> error + MethodInfo list" where
  "ListMethods a ord typeName =
     (case LookupType a ord typeName of
        Inl err \<Rightarrow> Inl err
      | Inr typeInfo \<Rightarrow> Inr (ti_Methods typeInfo))"

subsection \<open>SearchTypes\<close>

text \<open>
  \<open>strings.ToLower\<close>. On a string of ASCII bytes the library lowers the bytes \<open>A\<close> to
  \<open>Z\<close> and keeps the others. Any other string goes through the Unicode case mapping
  of the library (\<open>Map(unicode.ToLower, s)\<close>), which is no part of this repository: it
  is the argument \<open>lower\<close> here and of every function that calls \<open>ToLower\<close>.
  \<open>strings.Contains s substr\<close> holds when \<open>substr\<close> starts at some position of
  \<open>s\<close>.
\<close>

definition toLowerByte :: "char \<Rightarrow> char" where
  "toLowerByte c =
     (if CHR ''A'' \<le> c \<and> c \<le> CHR ''Z'' then char_of (of_char c + (32::nat)) else c)"

definition isASCII :: "string \<Rightarrow> bool" where
  "isASCII s \<longleftrightarrow> list_all (\<lambda>c. of_char c < (128::nat)) s"

definition ToLower :: "(string \<Rightarrow> string) \<Rightarrow> string \<Rightarrow> string" where
  "ToLower lower s = (if isASCII s then map toLowerByte s else lower s)"

fun Contains :: "string \<Rightarrow> string \<Rightarrow> bool" where
  "Contains [] substr \<longleftrightarrow> substr = []"
| "Contains (c # s) substr \<longleftrightarrow> prefix substr (c # s) \<or> Contains s substr"

definition isTypeName :: "Object \<Rightarrow> bool" where
  "isTypeName obj \<longleftrightarrow> o_Class obj = TypeNameC"

text \<open>
  The inner loop of \<open>SearchTypes\<close> over \<open>scope.Names()\<close>, appending to \<open>results\<close>.
  The nested call of \<open>LookupType\<close> ranges over \<open>a.pkgs\<close> again; \<open>ords pkgName name\<close>
  is the order of that visit for the call made at \<open>name\<close> of package \<open>pkgName\<close>. A
  failed call appends nothing.
\<close>

fun searchNames ::
  "(string \<Rightarrow> string) \<Rightarrow> Analyzer \<Rightarrow> (string \<Rightarrow> string \<Rightarrow> string list) \<Rightarrow> string \<Rightarrow> string \<Rightarrow> Package
     \<Rightarrow> string list \<Rightarrow> TypeInfo list \<Rightarrow> TypeInfo list" where
  "searchNames lower a ords query pkgName pkg [] results = results"
| "searchNames lower a ords query pkgName pkg (name # rest) results =
     (case Lookup pkg name of
        None \<Rightarrow> searchNames lower a ords query pkgName pkg rest results
      | Some obj \<Rightarrow>
          (if isTypeName obj \<and> Contains (ToLower lower (o_Name obj)) query
           then (case LookupType a (ords pkgName name) (o_Name obj) of
                   Inr typeInfo \<Rightarrow>
                     searchNames lower a ords query pkgName pkg rest (results @ [typeInfo])
                 | Inl err \<Rightarrow> searchNames lower a ords query pkgName pkg rest results)
           else searchNames lower a ords query pkgName pkg rest results))"

fun searchPkgs ::
  "(string \<Rightarrow> string) \<Rightarrow> Analyzer \<Rightarrow> (string \<Rightarrow> string \<Rightarrow> string list) \<Rightarrow> string \<Rightarrow> string list
     \<Rightarrow> TypeInfo list \<Rightarrow> TypeInfo list" where
  "searchPkgs lower a ords query [] results = results"
| "searchPkgs lower a ords query (pkgName # rest) results =
     (case pkgs a pkgName of
        None \<Rightarrow> searchPkgs lower a ords query rest results
      | Some pkg \<Rightarrow>
          searchPkgs lower a ords query rest
            (searchNames lower a ords query pkgName pkg (Names pkg) results))"

text \<open>\<open>SearchTypes\<close> reads no \<open>initialized\<close> flag and always returns a nil error.\<close>

definition SearchTypes ::
  "(string \<Rightarrow> string) \<Rightarrow> Analyzer \<Rightarrow> string list \<Rightarrow> (string \<Rightarrow> string \<Rightarrow> string list) \<Rightarrow> string
     \<Rightarrow> error + TypeInfo list" where
  "SearchTypes lower a ord ords query =
     Inr (searchPkgs lower a ords (ToLower lower query) ord [])"

subsection \<open>GetExample and GetPackageInfo\<close>

definition newline :: char where
  "newline = CHR 0x0A"

text \<open>\<open>fmt.Sprintf("Example: %s\n%s\n%s", example.Name, code, example.Doc)\<close>\<close>

definition formatExample :: "Example \<Rightarrow> string" where
  "formatExample example =
     ''Example: '' @ ex_Name example @ [newline] @ ex_Code example @ [newline] @ ex_Doc example"

fun Join :: "string list \<Rightarrow> string \<Rightarrow> string" where
  "Join [] sep = []"
| "Join [x] sep = x"
| "Join (x # y # rest) sep = x @ sep @ Join (y # rest) sep"

text \<open>
  What one documentation package adds to \<open>examples\<close>: the examples of the types whose
  name contains the topic, then those of the functions, then the matching examples of the
  package itself.
\<close>

definition examplesOf :: "(string \<Rightarrow> string) \<Rightarrow> DocPackage \<Rightarrow> string \<Rightarrow> string list" where
  "examplesOf lower docPkg topic =
     concat (map (\<lambda>docType.
                if Contains (ToLower lower (dt_Name docType)) (ToLower lower topic)
                then map formatExample (dt_Examples docType) else [])
              (dp_Types docPkg))
     @ concat (map (\<lambda>docFunc.
                if Contains (ToLower lower (df_Name docFunc)) (ToLower lower topic)
                then map formatExample (df_Examples docFunc) else [])
              (dp_Funcs docPkg))
     @ map formatExample
         (filter
            (\<lambda>example. Contains (ToLower lower (ex_Name example)) (ToLower lower topic))
            (dp_Examples docPkg))"

fun collectExamples ::
  "(string \<Rightarrow> string) \<Rightarrow> Analyzer \<Rightarrow> string list \<Rightarrow> string \<Rightarrow> string list
     \<Rightarrow> string list" where
  "collectExamples lower a [] topic examples = examples"
| "collectExamples lower a (pkgName # rest) topic examples =
     (case docPkgs a pkgName of
        None \<Rightarrow> collectExamples lower a rest topic examples
      | Some docPkg \<Rightarrow>
          collectExamples lower a rest topic (examples @ examplesOf lower docPkg topic))"

definition GetExample ::
  "(string \<Rightarrow> string) \<Rightarrow> Analyzer \<Rightarrow> string list \<Rightarrow> string \<Rightarrow> error + string" where
  "GetExample lower a ord topic =
     (let examples = collectExamples lower a ord topic [] in
      if length examples = 0 then Inl (NoExamplesFound topic)
      else Inr (Join examples [newline, newline]))"

definition packageInfo :: "Analyzer \<Rightarrow> string \<Rightarrow> Package \<Rightarrow> PackageInfo" where
  "packageInfo a pkgName pkg =
     \<lparr>pi_Name = pkgName,
      pi_ImportPath = p_Path pkg,
      pi_Doc = (case docPkgs a pkgName of None \<Rightarrow> [] | Some docPkg \<Rightarrow> dp_Doc docPkg),
      pi_Files = (case files a pkgName of None \<Rightarrow> [] | Some fs \<Rightarrow> fs),
      pi_IsMain = (pkgName = ''main'')\<rparr>"

definition GetPackageInfo :: "Analyzer \<Rightarrow> string \<Rightarrow> error + PackageInfo" where
  "GetPackageInfo a packageName =
     (case pkgs a packageName of
        None \<Rightarrow> Inl (PackageNotFound packageName)
      | Some pkg \<Rightarrow> Inr (packageInfo a packageName pkg))"

subsection \<open>AnalyzeRepository\<close>

definition analyzeFunctionObject :: "Object \<Rightarrow> Signature \<Rightarrow> string \<Rightarrow> FunctionInfo" where
  "analyzeFunctionObject fn sg pkgName =
     \<lparr>fn_Name = o_Name fn,
      fn_Signature = sig_String sg,
      fn_Package = pkgName,
      fn_Parameters = analyzeSignatureParams (sig_Params sg),
      fn_Results = analyzeSignatureParams (sig_Results sg),
      fn_Position = positionOf (o_Pos fn),
      fn_Exported = o_Exported fn,
      fn_IsMethod = (sig_Recv sg \<noteq> None)\<rparr>"

definition analyzeVariableObject :: "Object \<Rightarrow> string \<Rightarrow> VariableInfo" where
  "analyzeVariableObject v pkgName =
     \<lparr>vi_Name = o_Name v,
      vi_Type = t_String (o_Type v),
      vi_Package = pkgName,
      vi_Position = positionOf (o_Pos v),
      vi_Exported = o_Exported v\<rparr>"

definition analyzeConstantObject :: "Object \<Rightarrow> string \<Rightarrow> string \<Rightarrow> ConstantInfo" where
  "analyzeConstantObject c val pkgName =
     \<lparr>ci_Name = o_Name c,
      ci_Type = t_String (o_Type c),
      ci_Value = val,
      ci_Package = pkgName,
      ci_Position = positionOf (o_Pos c),
      ci_Exported = o_Exported c\<rparr>"

text \<open>The switch on the class of a scope object, appending to the result.\<close>

definition analyzeObject ::
  "Analyzer \<Rightarrow> string list \<Rightarrow> string \<Rightarrow> Object \<Rightarrow> AnalysisResult \<Rightarrow> AnalysisResult" where
  "analyzeObject a lookupOrd pkgName obj result =
     (case o_Class obj of
        TypeNameC \<Rightarrow>
          (case LookupType a lookupOrd (o_Name obj) of
             Inr typeInfo \<Rightarrow> result\<lparr>ar_Types := ar_Types result @ [typeInfo]\<rparr>
           | Inl err \<Rightarrow> result)
      | FuncC sg \<Rightarrow>
          result\<lparr>ar_Functions := ar_Functions result @ [analyzeFunctionObject obj sg pkgName]\<rparr>
      | VarC \<Rightarrow>
          result\<lparr>ar_Variables := ar_Variables result @ [analyzeVariableObject obj pkgName]\<rparr>
      | ConstC val \<Rightarrow>
          result\<lparr>ar_Constants := ar_Constants result @ [analyzeConstantObject obj val pkgName]\<rparr>)"

fun analyzeNames ::
  "Analyzer \<Rightarrow> (string \<Rightarrow> string \<Rightarrow> string list) \<Rightarrow> string \<Rightarrow> Package \<Rightarrow> string list
     \<Rightarrow> AnalysisResult \<Rightarrow> AnalysisResult" where
  "analyzeNames a ords pkgName pkg [] result = result"
| "analyzeNames a ords pkgName pkg (name # rest) result =
     (case Lookup pkg name of
        None \<Rightarrow> analyzeNames a ords pkgName pkg rest result
      | Some obj \<Rightarrow>
          analyzeNames a ords pkgName pkg rest
            (analyzeObject a (ords pkgName name) pkgName obj result))"

fun analyzeTypes ::
  "Analyzer \<Rightarrow> (string \<Rightarrow> string \<Rightarrow> string list) \<Rightarrow> string list
     \<Rightarrow> AnalysisResult \<Rightarrow> AnalysisResult" where
  "analyzeTypes a ords [] result = result"
| "analyzeTypes a ords (pkgName # rest) result =
     (case pkgs a pkgName of
        None \<Rightarrow> analyzeTypes a ords rest result
      | Some pkg \<Rightarrow>
          analyzeTypes a ords rest (analyzeNames a ords pkgName pkg (Names pkg) result))"

fun analyzePackages :: "Analyzer \<Rightarrow> string list \<Rightarrow> AnalysisResult \<Rightarrow> AnalysisResult" where
  "analyzePackages a [] result = result"
| "analyzePackages a (pkgName # rest) result =
     (case pkgs a pkgName of
        None \<Rightarrow> analyzePackages a rest result
      | Some pkg \<Rightarrow>
          analyzePackages a rest
            (result\<lparr>ar_Packages := ar_Packages result @ [packageInfo a pkgName pkg]\<rparr>))"

definition emptyResult :: AnalysisResult where
  "emptyResult =
     \<lparr>ar_Types = [], ar_Functions = [], ar_Variables = [], ar_Constants = [],
      ar_Packages = [],
      ar_Metrics = \<lparr>TotalTypes = 0, TotalFunctions = 0, TotalPackages = 0\<rparr>\<rparr>"

text \<open>
  \<open>AnalyzeRepository\<close> ranges over \<open>a.pkgs\<close> twice (\<open>ord\<close>, then \<open>ord'\<close>). The
  time stamp and the durations of the result are left out.
\<close>

definition AnalyzeRepository ::
  "Analyzer \<Rightarrow> string list \<Rightarrow> (string \<Rightarrow> string \<Rightarrow> string list) \<Rightarrow> string list
     \<Rightarrow> error + AnalysisResult" where
  "AnalyzeRepository a ord ords ord' =
     (if \<not> initialized a then Inl NotInitialized
      else
        let result = analyzeTypes a ords ord emptyResult;
            result = analyzePackages a ord' result;
            result = result\<lparr>ar_Metrics :=
                       \<lparr>TotalTypes = length (ar_Types result),
                        TotalFunctions = length (ar_Functions result),
                        TotalPackages = length (ar_Packages result)\<rparr>\<rparr>
        in Inr result)"

subsection \<open>initialize, Refresh and Close\<close>

text \<open>
  What the file system and the front end (go/parser, go/types) deliver to one run of
  \<open>initialize\<close>: the error that stops \<open>filepath.Walk\<close>, if any; the packages and the
  file lists that \<open>parseFile\<close> has stored by then; the packages that
  \<open>typeCheckPackages\<close> checks without error.
\<close>

record FrontEnd =
  fe_WalkError :: "string option"
  fe_Parsed :: "string \<rightharpoonup> Package"
  fe_Files :: "string \<rightharpoonup> string list"
  fe_Checked :: "string \<rightharpoonup> Package"

text \<open>
  \<open>parseRepository\<close>: \<open>a.pkgs[pkgName] = pkg\<close> overwrites, \<open>a.files[pkgName]\<close> is
  appended to. The error of the walk is returned as it is.
\<close>

definition parseRepository :: "Analyzer \<Rightarrow> FrontEnd \<Rightarrow> string option \<times> Analyzer" where
  "parseRepository a fe =
     (fe_WalkError fe,
      a\<lparr>pkgs := pkgs a ++ fe_Parsed fe,
        files := (\<lambda>pkgName.
           case fe_Files fe pkgName of
             None \<Rightarrow> files a pkgName
           | Some new \<Rightarrow> Some ((case files a pkgName of None \<Rightarrow> [] | Some old \<Rightarrow> old) @ new))\<rparr>)"

text \<open>\<open>typeCheckPackages\<close> stores every package that checks and always returns nil.\<close>

definition typeCheckPackages :: "Analyzer \<Rightarrow> FrontEnd \<Rightarrow> Analyzer" where
  "typeCheckPackages a fe = a\<lparr>pkgs := pkgs a ++ fe_Checked fe\<rparr>"

text \<open>
  \<open>generateDocumentation\<close> gives every package a documentation package that lists the
  names of its types and functions, with nothing else filled in; it always returns nil.
\<close>

definition scopeObjects :: "Package \<Rightarrow> Object list" where
  "scopeObjects pkg = List.map_filter (Lookup pkg) (Names pkg)"

definition newDocPackage :: "string \<Rightarrow> Package \<Rightarrow> DocPackage" where
  "newDocPackage pkgName pkg =
     \<lparr>dp_Name = pkgName,
      dp_Doc = [],
      dp_Types = map (\<lambda>obj. \<lparr>dt_Name = o_Name obj, dt_Doc = [], dt_Examples = []\<rparr>)
                   (filter (\<lambda>obj. o_Class obj = TypeNameC) (scopeObjects pkg)),
      dp_Funcs = map (\<lambda>obj. \<lparr>df_Name = o_Name obj, df_Examples = []\<rparr>)
                   (filter (\<lambda>obj. case o_Class obj of FuncC sg \<Rightarrow> True | _ \<Rightarrow> False)
                      (scopeObjects pkg)),
      dp_Examples = []\<rparr>"

definition generateDocumentation :: "Analyzer \<Rightarrow> Analyzer" where
  "generateDocumentation a =
     a\<lparr>docPkgs := (\<lambda>pkgName.
          case pkgs a pkgName of
            None \<Rightarrow> docPkgs a pkgName
          | Some pkg \<Rightarrow> Some (newDocPackage pkgName pkg))\<rparr>"

text \<open>
  \<open>initialize\<close> returns early when \<open>parseRepository\<close> fails, before the flag is set;
  otherwise it sets \<open>initialized\<close> and returns nil.
\<close>

definition initialize :: "Analyzer \<Rightarrow> FrontEnd \<Rightarrow> (error + unit) \<times> Analyzer" where
  "initialize a fe =
     (case parseRepository a fe of
        (Some err, a1) \<Rightarrow> (Inl (InitializeFailed err), a1)
      | (None, a1) \<Rightarrow>
          (let a2 = typeCheckPackages a1 fe;
               a3 = generateDocumentation a2
           in (Inr (), a3\<lparr>initialized := True\<rparr>)))"

definition Refresh :: "Analyzer \<Rightarrow> FrontEnd \<Rightarrow> (error + unit) \<times> Analyzer" where
  "Refresh a fe =
     initialize (a\<lparr>pkgs := Map.empty, docPkgs := Map.empty, initialized := False,
                   files := Map.empty\<rparr>) fe"

definition Close :: "Analyzer \<Rightarrow> Analyzer" where
  "Close a = a\<lparr>initialized := False\<rparr>"

text \<open>
  The calls that a client can make on an analyzer, and the state after a sequence of
  them. The queries hold the read lock and leave the state as it is.
\<close>

datatype call =
    CallRefresh FrontEnd
  | CallClose
  | CallLookupType "string list" string
  | CallListMethods "string list" string
  | CallSearchTypes "string list" "string \<Rightarrow> string \<Rightarrow> string list" string
  | CallGetExample "string list" string
  | CallAnalyzeRepository "string list" "string \<Rightarrow> string \<Rightarrow> string list" "string list"
  | CallGetPackageInfo string

fun step :: "Analyzer \<Rightarrow> call \<Rightarrow> Analyzer" where
  "step a (CallRefresh fe) = snd (Refresh a fe)"
| "step a CallClose = Close a"
| "step a _ = a"

definition run :: "Analyzer \<Rightarrow> call list \<Rightarrow> Analyzer" where
  "run a calls = foldl step a calls"

section \<open>The cache\<close>

text \<open>
  An entry holds its value and its expiration, an \<open>int64\<close> of Unix nanoseconds, here a
  64-bit word read as a signed number (\<open><s\<close>, \<open>\<le>s\<close>, \<open>sint\<close>). The clock readings
  \<open>time.Now().UnixNano()\<close> are arguments. What \<open>save\<close> returns depends on the disk
  and is an argument too; it does not touch \<open>data\<close>.
\<close>

record 'v cacheEntry =
  Value :: 'v
  Expiration :: "64 word"

record 'v Cache =
  data :: "string \<rightharpoonup> 'v cacheEntry"

definition Get :: "'v Cache \<Rightarrow> string \<Rightarrow> 64 word \<Rightarrow> 'v option" where
  "Get c key now =
     (case data c key of
        None \<Rightarrow> None
      | Some entry \<Rightarrow>
          (if 0 <s Expiration entry \<and> Expiration entry <s now then None
           else Some (Value entry)))"

text \<open>
  \<open>time.Now().Add(duration).UnixNano()\<close> is the sum of the two \<open>int64\<close> numbers of
  nanoseconds, computed in \<open>int64\<close>: it wraps around beyond the year 2262.
\<close>

definition Set :: "'v Cache \<Rightarrow> string \<Rightarrow> 'v \<Rightarrow> 64 word \<Rightarrow> 64 word \<Rightarrow> string option
    \<Rightarrow> string option \<times> 'v Cache" where
  "Set c key val duration now saveErr =
     (let exp = (if 0 <s duration then now + duration else 0) in
      (saveErr, c\<lparr>data := (data c)(key \<mapsto> \<lparr>Value = val, Expiration = exp\<rparr>)\<rparr>))"

definition Clear :: "'v Cache \<Rightarrow> string option \<Rightarrow> string option \<times> 'v Cache" where
  "Clear c saveErr = (saveErr, c\<lparr>data := Map.empty\<rparr>)"

section \<open>A small repository\<close>

text \<open>
  Two packages, as the front end hands them over. Package \<open>accounts\<close> declares
  \<^verbatim>\<open>type Config struct { Path string `json:"path"` }\<close> and
  \<^verbatim>\<open>type UserAccount struct { Name string; Config }\<close> with the methods
  \<^verbatim>\<open>func (u UserAccount) Validate() bool\<close> and
  \<^verbatim>\<open>func (u *UserAccount) Rename(name string)\<close>. Package \<open>store\<close> declares
  \<^verbatim>\<open>type Config map[string]string\<close> and
  \<^verbatim>\<open>type Reader interface { Read() string }\<close>.
\<close>

definition at :: "string \<Rightarrow> int \<Rightarrow> int \<Rightarrow> Position" where
  "at file line col = \<lparr>Filename = file, Line = line, Column = col\<rparr>"

definition pathField :: Var where
  "pathField = \<lparr>v_Name = ''Path'', v_Type = ''string'', v_Exported = True,
                v_Embedded = False, v_Pos = at ''accounts/account.go'' 4 2\<rparr>"

definition nameField :: Var where
  "nameField = \<lparr>v_Name = ''Name'', v_Type = ''string'', v_Exported = True,
                v_Embedded = False, v_Pos = at ''accounts/account.go'' 8 2\<rparr>"

definition configField :: Var where
  "configField = \<lparr>v_Name = ''Config'', v_Type = ''accounts.Config'', v_Exported = True,
                  v_Embedded = True, v_Pos = at ''accounts/account.go'' 9 2\<rparr>"

definition validateFunc :: Func where
  "validateFunc =
     \<lparr>f_Name = ''Validate'', f_Exported = True, f_Pos = at ''accounts/account.go'' 12 23,
      f_Sig = \<lparr>sig_String = ''func() bool'',
               sig_Recv = Some \<lparr>v_Name = ''u'', v_Type = ''accounts.UserAccount'',
                                v_Exported = False, v_Embedded = False,
                                v_Pos = at ''accounts/account.go'' 12 7\<rparr>,
               sig_Params = [],
               sig_Results = [\<lparr>v_Name = [], v_Type = ''bool'', v_Exported = False,
                               v_Embedded = False, v_Pos = zeroPosition\<rparr>]\<rparr>\<rparr>"

definition renameFunc :: Func where
  "renameFunc =
     \<lparr>f_Name = ''Rename'', f_Exported = True, f_Pos = at ''accounts/account.go'' 16 24,
      f_Sig = \<lparr>sig_String = ''func(name string)'',
               sig_Recv = Some \<lparr>v_Name = ''u'', v_Type = ''*accounts.UserAccount'',
                                v_Exported = False, v_Embedded = False,
                                v_Pos = at ''accounts/account.go'' 16 7\<rparr>,
               sig_Params = [\<lparr>v_Name = ''name'', v_Type = ''string'', v_Exported = False,
                              v_Embedded = False, v_Pos = at ''accounts/account.go'' 16 31\<rparr>],
               sig_Results = []\<rparr>\<rparr>"

definition readFunc :: Func where
  "readFunc =
     \<lparr>f_Name = ''Read'', f_Exported = True, f_Pos = at ''store/store.go'' 6 2,
      f_Sig = \<lparr>sig_String = ''func() string'',
               sig_Recv = Some \<lparr>v_Name = [], v_Type = ''store.Reader'',
                                v_Exported = False, v_Embedded = False,
                                v_Pos = zeroPosition\<rparr>,
               sig_Params = [],
               sig_Results = [\<lparr>v_Name = [], v_Type = ''string'', v_Exported = False,
                               v_Embedded = False, v_Pos = zeroPosition\<rparr>]\<rparr>\<rparr>"

definition accountsConfig :: Object where
  "accountsConfig =
     \<lparr>o_Name = ''Config'', o_Class = TypeNameC, o_Exported = True,
      o_Pos = at ''accounts/account.go'' 3 6,
      o_Type = \<lparr>t_String = ''accounts.Config'',
                t_Underlying = Struct [pathField] [''json:\"path\"''],
                t_IsPointer = False, t_MethodSet = [], t_PtrMethodSet = [],
                t_Sizeof = 16, t_Alignof = 8\<rparr>\<rparr>"

text \<open>
  The method set of \<open>UserAccount\<close> holds \<open>Validate\<close>; that of \<open>*UserAccount\<close>
  holds \<open>Rename\<close> and \<open>Validate\<close>, the latter reached through the pointer.
\<close>

definition userAccount :: Object where
  "userAccount =
     \<lparr>o_Name = ''UserAccount'', o_Class = TypeNameC, o_Exported = True,
      o_Pos = at ''accounts/account.go'' 7 6,
      o_Type = \<lparr>t_String = ''accounts.UserAccount'',
                t_Underlying = Struct [nameField, configField] [],
                t_IsPointer = False,
                t_MethodSet =
                  [\<lparr>sel_Kind = MethodVal, sel_Obj = validateFunc, sel_Indirect = False\<rparr>],
                t_PtrMethodSet =
                  [\<lparr>sel_Kind = MethodVal, sel_Obj = renameFunc, sel_Indirect = False\<rparr>,
                   \<lparr>sel_Kind = MethodVal, sel_Obj = validateFunc, sel_Indirect = True\<rparr>],
                t_Sizeof = 32, t_Alignof = 8\<rparr>\<rparr>"

definition storeConfig :: Object where
  "storeConfig =
     \<lparr>o_Name = ''Config'', o_Class = TypeNameC, o_Exported = True,
      o_Pos = at ''store/store.go'' 3 6,
      o_Type = \<lparr>t_String = ''store.Config'', t_Underlying = Map,
                t_IsPointer = False, t_MethodSet = [], t_PtrMethodSet = [],
                t_Sizeof = 8, t_Alignof = 8\<rparr>\<rparr>"

text \<open>
  The method set of the interface \<open>Reader\<close> holds \<open>Read\<close>, whose receiver is the
  interface; the method set of a pointer to an interface is empty.
\<close>

definition reader :: Object where
  "reader =
     \<lparr>o_Name = ''Reader'', o_Class = TypeNameC, o_Exported = True,
      o_Pos = at ''store/store.go'' 5 6,
      o_Type = \<lparr>t_String = ''store.Reader'', t_Underlying = Interface [readFunc],
                t_IsPointer = False,
                t_MethodSet =
                  [\<lparr>sel_Kind = MethodVal, sel_Obj = readFunc, sel_Indirect = False\<rparr>],
                t_PtrMethodSet = [],
                t_Sizeof = 16, t_Alignof = 8\<rparr>\<rparr>"

definition accountsPkg :: Package where
  "accountsPkg = \<lparr>p_Path = ''accounts'', p_Scope = [accountsConfig, userAccount]\<rparr>"

definition storePkg :: Package where
  "storePkg = \<lparr>p_Path = ''store'', p_Scope = [storeConfig, reader]\<rparr>"

text \<open>The analyzer as \<open>NewAnalyzerWithConfig\<close> creates it, before \<open>initialize\<close>.\<close>

definition newAnalyzer :: Analyzer where
  "newAnalyzer =
     \<lparr>pkgs = Map.empty, docPkgs = Map.empty, files = Map.empty, initialized = False\<rparr>"

definition demoFrontEnd :: FrontEnd where
  "demoFrontEnd =
     \<lparr>fe_WalkError = None,
      fe_Parsed = [''accounts'' \<mapsto> accountsPkg, ''store'' \<mapsto> storePkg],
      fe_Files = [''accounts'' \<mapsto> [''accounts/account.go''],
                  ''store'' \<mapsto> [''store/store.go'']],
      fe_Checked = [''accounts'' \<mapsto> accountsPkg, ''store'' \<mapsto> storePkg]\<rparr>"

text \<open>A walk that stops with an error after the first package has been stored.\<close>

definition brokenFrontEnd :: FrontEnd where
  "brokenFrontEnd =
     \<lparr>fe_WalkError = Some ''lstat store: permission denied'',
      fe_Parsed = [''accounts'' \<mapsto> accountsPkg],
      fe_Files = [''accounts'' \<mapsto> [''accounts/account.go'']],
      fe_Checked = Map.empty\<rparr>"

definition demo :: Analyzer where
  "demo = snd (initialize newAnalyzer demoFrontEnd)"

text \<open>
  The repository without the type \<open>Config\<close> of package \<open>store\<close>: two packages, no
  name declared twice.
\<close>

definition storeReaderPkg :: Package where
  "storeReaderPkg = \<lparr>p_Path = ''store'', p_Scope = [reader]\<rparr>"

definition tidyFrontEnd :: FrontEnd where
  "tidyFrontEnd =
     \<lparr>fe_WalkError = None,
      fe_Parsed = [''accounts'' \<mapsto> accountsPkg, ''store'' \<mapsto> storeReaderPkg],
      fe_Files = [''accounts'' \<mapsto> [''accounts/account.go''],
                  ''store'' \<mapsto> [''store/store.go'']],
      fe_Checked = [''accounts'' \<mapsto> accountsPkg, ''store'' \<mapsto> storeReaderPkg]\<rparr>"

definition tidy :: Analyzer where
  "tidy = snd (initialize newAnalyzer tidyFrontEnd)"

text \<open>
  A repository in which a second package, \<open>legacy\<close>, declares
  \<^verbatim>\<open>type UserAccount struct { Name string }\<close> without any method.
\<close>

definition legacyAccount :: Object where
  "legacyAccount =
     \<lparr>o_Name = ''UserAccount'', o_Class = TypeNameC, o_Exported = True,
      o_Pos = at ''legacy/account.go'' 3 6,
      o_Type = \<lparr>t_String = ''legacy.UserAccount'',
                t_Underlying =
                  Struct [\<lparr>v_Name = ''Name'', v_Type = ''string'', v_Exported = True,
                           v_Embedded = False, v_Pos = at ''legacy/account.go'' 4 2\<rparr>] [],
                t_IsPointer = False, t_MethodSet = [], t_PtrMethodSet = [],
                t_Sizeof = 16, t_Alignof = 8\<rparr>\<rparr>"

definition legacyPkg :: Package where
  "legacyPkg = \<lparr>p_Path = ''legacy'', p_Scope = [legacyAccount]\<rparr>"

definition legacyFrontEnd :: FrontEnd where
  "legacyFrontEnd =
     \<lparr>fe_WalkError = None,
      fe_Parsed = [''accounts'' \<mapsto> accountsPkg, ''legacy'' \<mapsto> legacyPkg],
      fe_Files = [''accounts'' \<mapsto> [''accounts/account.go''],
                  ''legacy'' \<mapsto> [''legacy/account.go'']],
      fe_Checked = [''accounts'' \<mapsto> accountsPkg, ''legacy'' \<mapsto> legacyPkg]\<rparr>"

definition legacyDemo :: Analyzer where
  "legacyDemo = snd (initialize newAnalyzer legacyFrontEnd)"

text \<open>
  Every name and query of these repositories is ASCII, so \<open>ToLower\<close> never reaches
  the Unicode mapping of the library; this mapping stands in for it there.
\<close>

definition asciiLower :: "string \<Rightarrow> string" where
  "asciiLower s = map toLowerByte s"

text \<open>Every nested visit of the packages in the same order.\<close>

definition always :: "string list \<Rightarrow> string \<Rightarrow> string \<Rightarrow> string list" where
  "always ord pkgName name = ord"

text \<open>A cache of strings with no entry, as \<open>New\<close> creates it over an empty directory.\<close>

definition emptyCache :: "string Cache" where
  "emptyCache = \<lparr>data = Map.empty\<rparr>"

section \<open>Notions used in the statements\<close>

text \<open>Package \<open>pkgName\<close> of the analyzer holds an object named \<open>name\<close>.\<close>

definition declares :: "Analyzer \<Rightarrow> string \<Rightarrow> string \<Rightarrow> bool" where
  "declares a pkgName name \<longleftrightarrow>
     (case pkgs a pkgName of None \<Rightarrow> False | Some pkg \<Rightarrow> Lookup pkg name \<noteq> None)"

text \<open>
  The names of the named types among the scope names \<open>names\<close> of a package, in their
  order, and those of a package of the analyzer.
\<close>

definition typeNamesOf :: "Package \<Rightarrow> string list \<Rightarrow> string list" where
  "typeNamesOf pkg names = map o_Name (filter isTypeName (List.map_filter (Lookup pkg) names))"

definition typeNames :: "Analyzer \<Rightarrow> string \<Rightarrow> string list" where
  "typeNames a pkgName =
     (case pkgs a pkgName of None \<Rightarrow> [] | Some pkg \<Rightarrow> typeNamesOf pkg (Names pkg))"

text \<open>The test that \<open>SearchTypes\<close> applies to a type name, the query in lower case.\<close>

definition matches :: "(string \<Rightarrow> string) \<Rightarrow> string \<Rightarrow> string \<Rightarrow> bool" where
  "matches lower name query \<longleftrightarrow> Contains (ToLower lower name) (ToLower lower query)"

text \<open>
  The descriptors of the named types of package \<open>pkgName\<close> whose names match the
  query, each built from the object of that package.
\<close>

definition ownDescriptors ::
  "(string \<Rightarrow> string) \<Rightarrow> Analyzer \<Rightarrow> string \<Rightarrow> string \<Rightarrow> TypeInfo list" where
  "ownDescriptors lower a query pkgName =
     (case pkgs a pkgName of
        None \<Rightarrow> []
      | Some pkg \<Rightarrow>
          map (\<lambda>obj. describeType a (o_Name obj) pkgName pkg obj)
            (filter (\<lambda>obj. isTypeName obj \<and> matches lower (o_Name obj) query)
               (List.map_filter (Lookup pkg) (Names pkg))))"

text \<open>
  No \<open>Refresh\<close> among the calls succeeds, each one judged in the state in which it is
  made.
\<close>

fun noRebuild :: "Analyzer \<Rightarrow> call list \<Rightarrow> bool" where
  "noRebuild a [] \<longleftrightarrow> True"
| "noRebuild a (CallRefresh fe # calls) \<longleftrightarrow>
     isl (fst (Refresh a fe)) \<and> noRebuild (step a (CallRefresh fe)) calls"
| "noRebuild a (c # calls) \<longleftrightarrow> noRebuild (step a c) calls"

section \<open>Properties of the method set\<close>

lemma valuePass_eq:
  "valuePass methods sels =
     methods @ map valueMethodInfo (filter (\<lambda>s. sel_Kind s = MethodVal) sels)"
  by (induction sels arbitrary: methods) auto

lemma valueMethodInfo_name [simp]: "mi_Name (valueMethodInfo s) = f_Name (sel_Obj s)"
  by (simp add: valueMethodInfo_def Let_def)

text \<open>A name that the first loop has produced is never added by the second.\<close>

lemma pointerPass_keeps:
  "\<exists>x \<in> set methods. mi_Name x = M \<Longrightarrow>
   filter (\<lambda>m. mi_Name m = M) (pointerPass methods sels) = filter (\<lambda>m. mi_Name m = M) methods"
proof (induction sels arbitrary: methods)
  case Nil
  then show ?case by simp
next
  case (Cons s sels)
  show ?case
  proof (cases "sel_Kind s \<noteq> MethodVal \<or> list_ex (\<lambda>e. mi_Name e = f_Name (sel_Obj s)) methods")
    case True
    then show ?thesis using Cons by auto
  next
    case False
    then have new: "\<forall>e \<in> set methods. mi_Name e \<noteq> f_Name (sel_Obj s)"
      by (auto simp: list_ex_iff)
    with Cons.prems have "f_Name (sel_Obj s) \<noteq> M" by auto
    then have "filter (\<lambda>m. mi_Name m = M) (methods @ [pointerMethodInfo s])
                 = filter (\<lambda>m. mi_Name m = M) methods"
      by (simp add: pointerMethodInfo_def Let_def)
    moreover have "\<exists>x \<in> set (methods @ [pointerMethodInfo s]). mi_Name x = M"
      using Cons.prems by auto
    ultimately show ?thesis using False Cons.IH [of "methods @ [pointerMethodInfo s]"]
      by simp
  qed
qed

lemma mset_insertByName: "mset (insertByName x ys) = add_mset x (mset ys)"
  by (induction ys) auto

lemma mset_sortByName_aux:
  "mset (foldl (\<lambda>sorted x. insertByName x sorted) acc xs) = mset acc + mset xs"
  by (induction xs arbitrary: acc) (auto simp: mset_insertByName)

lemma mset_sortByName: "mset (sortByName xs) = mset xs"
  by (simp add: sortByName_def mset_sortByName_aux)

lemma set_insertByName: "set (insertByName x ys) = insert x (set ys)"
  by (induction ys) auto

lemma sorted_insertByName:
  "sorted (map mi_Name ys) \<Longrightarrow> sorted (map mi_Name (insertByName x ys))"
  by (induction ys) (auto simp: set_insertByName)

lemma sorted_sortByName_aux:
  "sorted (map mi_Name acc) \<Longrightarrow>
   sorted (map mi_Name (foldl (\<lambda>sorted x. insertByName x sorted) acc xs))"
  by (induction xs arbitrary: acc) (auto simp: sorted_insertByName)

lemma sorted_sortByName: "sorted (map mi_Name (sortByName xs))"
  by (simp add: sortByName_def sorted_sortByName_aux)

lemma filter_sortByName_single:
  assumes "filter P xs = [v]"
  shows "filter P (sortByName xs) = [v]"
proof -
  have "mset (filter P (sortByName xs)) = mset (filter P xs)"
    by (simp add: mset_sortByName)
  then have "mset (filter P (sortByName xs)) = {#v#}" using assms by simp
  then show ?thesis by (simp only: mset_single_iff)
qed

lemma sorted_getTypeMethods: "sorted (map mi_Name (getTypeMethods t))"
  by (simp add: getTypeMethods_def Let_def sorted_sortByName)

lemma getTypeMethods_single:
  assumes "filter (\<lambda>s. sel_Kind s = MethodVal \<and> f_Name (sel_Obj s) = M) (t_MethodSet t) = [v]"
  shows "filter (\<lambda>m. mi_Name m = M) (getTypeMethods t) = [valueMethodInfo v]"
proof -
  let ?first = "valuePass [] (t_MethodSet t)"
  have first: "filter (\<lambda>m. mi_Name m = M) ?first = [valueMethodInfo v]"
  proof -
    have "filter (\<lambda>m. mi_Name m = M) ?first
            = map valueMethodInfo
                (filter (\<lambda>s. sel_Kind s = MethodVal \<and> f_Name (sel_Obj s) = M) (t_MethodSet t))"
      by (simp add: valuePass_eq filter_map comp_def conj_commute)
    then show ?thesis using assms by simp
  qed
  then have "valueMethodInfo v \<in> set (filter (\<lambda>m. mi_Name m = M) ?first)" by simp
  then have "valueMethodInfo v \<in> set ?first \<and> mi_Name (valueMethodInfo v) = M"
    by (simp only: set_filter mem_Collect_eq)
  then have ex: "\<exists>x \<in> set ?first. mi_Name x = M" by blast
  have "filter (\<lambda>m. mi_Name m = M)
          (if \<not> t_IsPointer t then pointerPass ?first (t_PtrMethodSet t) else ?first)
        = [valueMethodInfo v]"
    using first pointerPass_keeps [OF ex] by simp
  then show ?thesis
    by (simp add: getTypeMethods_def Let_def filter_sortByName_single)
qed

section \<open>Properties of LookupType and ListMethods\<close>

lemma describeType_Methods:
  "ti_Methods (describeType a typeName pkgName pkg obj) = getTypeMethods (o_Type obj)"
  by (simp add: describeType_def Let_def)

lemma describeType_Fields:
  "t_Underlying (o_Type obj) = Struct fs tags \<Longrightarrow>
   ti_Fields (describeType a typeName pkgName pkg obj) = analyzeStructFields fs tags"
  by (simp add: describeType_def Let_def)

lemma describeType_Kind_struct:
  "t_Underlying (o_Type obj) = Struct fs tags \<Longrightarrow>
   ti_Kind (describeType a typeName pkgName pkg obj) = ''struct''"
  by (simp add: describeType_def Let_def)

lemma LookupType_found:
  "initialized a \<Longrightarrow> lookupObject a ord T = Some (pkgName, pkg, obj) \<Longrightarrow>
   LookupType a ord T = Inr (describeType a T pkgName pkg obj)"
  by (simp add: LookupType_def)

subsection \<open>The small repository, evaluated\<close>

lemma pkgs_demo: "pkgs demo = [''accounts'' \<mapsto> accountsPkg, ''store'' \<mapsto> storePkg]"
  by (rule ext) (simp add: demo_def initialize_def parseRepository_def typeCheckPackages_def
      generateDocumentation_def newAnalyzer_def demoFrontEnd_def map_add_def Let_def)

lemma initialized_demo: "initialized demo"
  by (simp add: demo_def initialize_def parseRepository_def typeCheckPackages_def
      generateDocumentation_def newAnalyzer_def demoFrontEnd_def Let_def)

lemma lookupObject_UserAccount:
  "lookupObject demo [''accounts'', ''store''] ''UserAccount''
     = Some (''accounts'', accountsPkg, userAccount)"
  by (simp add: pkgs_demo Lookup_def accountsPkg_def accountsConfig_def userAccount_def)

lemma lookupObject_Reader:
  "lookupObject demo [''accounts'', ''store''] ''Reader'' = Some (''store'', storePkg, reader)"
  by (simp add: pkgs_demo Lookup_def accountsPkg_def accountsConfig_def userAccount_def
      storePkg_def storeConfig_def reader_def)

text \<open>
  C1. When the method set of a type holds exactly one method named \<open>M\<close> and the
  method set of its pointer type holds a method of that name too, the methods that \<open>LookupType\<close> and
  \<open>ListMethods\<close> return for the type hold exactly one descriptor named \<open>M\<close>: the one
  that the loop over the type's own method set has built.
\<close>

theorem one_descriptor_per_shared_name:
  assumes "initialized a"
    and "lookupObject a ord T = Some (pkgName, pkg, obj)"
    and "filter (\<lambda>s. sel_Kind s = MethodVal \<and> f_Name (sel_Obj s) = M)
           (t_MethodSet (o_Type obj)) = [v]"
    and "\<exists>p \<in> set (t_PtrMethodSet (o_Type obj)).
           sel_Kind p = MethodVal \<and> f_Name (sel_Obj p) = M"
  shows "\<exists>ti ms. LookupType a ord T = Inr ti \<and> ListMethods a ord T = Inr ms
           \<and> filter (\<lambda>m. mi_Name m = M) (ti_Methods ti) = [valueMethodInfo v]
           \<and> filter (\<lambda>m. mi_Name m = M) ms = [valueMethodInfo v]"
  using assms(1,2) getTypeMethods_single [OF assms(3)]
  by (simp add: ListMethods_def LookupType_def describeType_Methods)

theorem one_descriptor_per_shared_name_witness:
  "initialized demo
   \<and> lookupObject demo [''accounts'', ''store''] ''UserAccount''
       = Some (''accounts'', accountsPkg, userAccount)
   \<and> filter (\<lambda>s. sel_Kind s = MethodVal \<and> f_Name (sel_Obj s) = ''Validate'')
       (t_MethodSet (o_Type userAccount))
       = [\<lparr>sel_Kind = MethodVal, sel_Obj = validateFunc, sel_Indirect = False\<rparr>]
   \<and> (\<exists>p \<in> set (t_PtrMethodSet (o_Type userAccount)).
         sel_Kind p = MethodVal \<and> f_Name (sel_Obj p) = ''Validate'')
   \<and> (\<exists>ti ms. LookupType demo [''accounts'', ''store''] ''UserAccount'' = Inr ti
         \<and> ListMethods demo [''accounts'', ''store''] ''UserAccount'' = Inr ms
         \<and> filter (\<lambda>m. mi_Name m = ''Validate'') (ti_Methods ti)
             = [valueMethodInfo
                  \<lparr>sel_Kind = MethodVal, sel_Obj = validateFunc, sel_Indirect = False\<rparr>]
         \<and> filter (\<lambda>m. mi_Name m = ''Validate'') ms
             = [valueMethodInfo
                  \<lparr>sel_Kind = MethodVal, sel_Obj = validateFunc, sel_Indirect = False\<rparr>])"
proof -
  have h3: "filter (\<lambda>s. sel_Kind s = MethodVal \<and> f_Name (sel_Obj s) = ''Validate'')
              (t_MethodSet (o_Type userAccount))
            = [\<lparr>sel_Kind = MethodVal, sel_Obj = validateFunc, sel_Indirect = False\<rparr>]"
    by (simp add: userAccount_def validateFunc_def)
  have h4: "\<exists>p \<in> set (t_PtrMethodSet (o_Type userAccount)).
              sel_Kind p = MethodVal \<and> f_Name (sel_Obj p) = ''Validate''"
    by (simp add: userAccount_def validateFunc_def)
  show ?thesis
    using one_descriptor_per_shared_name [OF initialized_demo lookupObject_UserAccount h3 h4]
      initialized_demo lookupObject_UserAccount h3 h4
    by simp
qed

text \<open>
  C5. The methods of the descriptor that \<open>LookupType\<close> returns, and the methods that
  \<open>ListMethods\<close> returns, are sorted by name in ascending order; names are compared
  byte by byte, so the order is case-sensitive (an upper-case letter comes before every
  lower-case letter).
\<close>

theorem methods_sorted_by_name:
  "(LookupType a ord T = Inr ti \<longrightarrow> sorted (map mi_Name (ti_Methods ti)))
   \<and> (ListMethods a ord T = Inr ms \<longrightarrow> sorted (map mi_Name ms))"
  by (auto simp: ListMethods_def LookupType_def describeType_Methods sorted_getTypeMethods
      split: if_splits option.splits sum.splits)

theorem methods_sorted_by_name_witness:
  "LookupType demo [''accounts'', ''store''] ''UserAccount''
     = Inr (describeType demo ''UserAccount'' ''accounts'' accountsPkg userAccount)
   \<and> ListMethods demo [''accounts'', ''store''] ''UserAccount''
       = Inr (getTypeMethods (o_Type userAccount))
   \<and> map mi_Name (getTypeMethods (o_Type userAccount)) = [''Rename'', ''Validate'']
   \<and> sorted (map mi_Name
        (ti_Methods (describeType demo ''UserAccount'' ''accounts'' accountsPkg userAccount)))
   \<and> sorted (map mi_Name (getTypeMethods (o_Type userAccount)))
   \<and> sorted [''Rename'', ''Validate'', ''rename'']"
proof -
  have l: "LookupType demo [''accounts'', ''store''] ''UserAccount''
             = Inr (describeType demo ''UserAccount'' ''accounts'' accountsPkg userAccount)"
    by (rule LookupType_found [OF initialized_demo lookupObject_UserAccount])
  have o: "sorted [''Rename'', ''Validate'', ''rename'']"
    by code_simp
  have m: "ListMethods demo [''accounts'', ''store''] ''UserAccount''
             = Inr (getTypeMethods (o_Type userAccount))"
    by (simp add: ListMethods_def l describeType_Methods)
  have n: "map mi_Name (getTypeMethods (o_Type userAccount)) = [''Rename'', ''Validate'']"
    by (simp add: getTypeMethods_def userAccount_def sortByName_def validateFunc_def
        renameFunc_def valueMethodInfo_def pointerMethodInfo_def Let_def)
  show ?thesis
    using methods_sorted_by_name
      [of demo "[''accounts'', ''store'']" "''UserAccount''"
          "describeType demo ''UserAccount'' ''accounts'' accountsPkg userAccount"
          "getTypeMethods (o_Type userAccount)"]
      l m n o
    by simp
qed

text \<open>
  C7. For a type whose underlying shape is a struct, the descriptor has one field
  descriptor for each declared field, in declaration order, and each takes its name,
  type string, tag, exported flag and embedded flag from the field of the same index.
\<close>

theorem struct_fields_in_declaration_order:
  assumes "initialized a"
    and "lookupObject a ord T = Some (pkgName, pkg, obj)"
    and "t_Underlying (o_Type obj) = Struct fs tags"
  shows "\<exists>ti. LookupType a ord T = Inr ti
           \<and> length (ti_Fields ti) = length fs
           \<and> (\<forall>i < length fs.
                 fi_Name (ti_Fields ti ! i) = v_Name (fs ! i)
               \<and> fi_Type (ti_Fields ti ! i) = v_Type (fs ! i)
               \<and> fi_Tag (ti_Fields ti ! i) = Tag tags i
               \<and> fi_Exported (ti_Fields ti ! i) = v_Exported (fs ! i)
               \<and> fi_Embedded (ti_Fields ti ! i) = v_Embedded (fs ! i))"
  using assms
  by (simp add: LookupType_def describeType_Fields analyzeStructFields_def fieldInfo_def)

theorem struct_fields_in_declaration_order_witness:
  "initialized demo
   \<and> lookupObject demo [''accounts'', ''store''] ''UserAccount''
       = Some (''accounts'', accountsPkg, userAccount)
   \<and> t_Underlying (o_Type userAccount) = Struct [nameField, configField] []
   \<and> (\<exists>ti. LookupType demo [''accounts'', ''store''] ''UserAccount'' = Inr ti
         \<and> length (ti_Fields ti) = 2
         \<and> fi_Name (ti_Fields ti ! 0) = ''Name'' \<and> fi_Name (ti_Fields ti ! 1) = ''Config''
         \<and> fi_Type (ti_Fields ti ! 1) = ''accounts.Config''
         \<and> fi_Tag (ti_Fields ti ! 1) = []
         \<and> \<not> fi_Embedded (ti_Fields ti ! 0) \<and> fi_Embedded (ti_Fields ti ! 1))"
proof -
  have h3: "t_Underlying (o_Type userAccount) = Struct [nameField, configField] []"
    by (simp add: userAccount_def)
  from struct_fields_in_declaration_order [OF initialized_demo lookupObject_UserAccount h3]
  obtain ti where ti: "LookupType demo [''accounts'', ''store''] ''UserAccount'' = Inr ti"
    "length (ti_Fields ti) = length [nameField, configField]"
    "\<forall>i < length [nameField, configField].
         fi_Name (ti_Fields ti ! i) = v_Name ([nameField, configField] ! i)
       \<and> fi_Type (ti_Fields ti ! i) = v_Type ([nameField, configField] ! i)
       \<and> fi_Tag (ti_Fields ti ! i) = Tag [] i
       \<and> fi_Exported (ti_Fields ti ! i) = v_Exported ([nameField, configField] ! i)
       \<and> fi_Embedded (ti_Fields ti ! i) = v_Embedded ([nameField, configField] ! i)"
    by blast
  from ti(3) have f0: "fi_Name (ti_Fields ti ! 0) = ''Name'' \<and> \<not> fi_Embedded (ti_Fields ti ! 0)"
    by (simp add: nameField_def)
  from ti(3) have "1 < length [nameField, configField] \<longrightarrow>
        fi_Name (ti_Fields ti ! 1) = v_Name ([nameField, configField] ! 1)
      \<and> fi_Type (ti_Fields ti ! 1) = v_Type ([nameField, configField] ! 1)
      \<and> fi_Tag (ti_Fields ti ! 1) = Tag [] 1
      \<and> fi_Embedded (ti_Fields ti ! 1) = v_Embedded ([nameField, configField] ! 1)"
    by blast
  then have f1: "fi_Name (ti_Fields ti ! 1) = ''Config''
      \<and> fi_Type (ti_Fields ti ! 1) = ''accounts.Config''
      \<and> fi_Tag (ti_Fields ti ! 1) = [] \<and> fi_Embedded (ti_Fields ti ! 1)"
    by (simp add: configField_def Tag_def)
  show ?thesis
    using initialized_demo lookupObject_UserAccount h3 ti(1,2) f0 f1 by simp
qed

text \<open>
  C2. \<open>LookupType\<close> assigns the result of \<open>getTypeMethods\<close> to \<open>Methods\<close> for a
  type of any shape, an interface included: what \<open>analyzeInterfaceMethods\<close> has stored
  there is lost. For the interface \<open>Reader\<close> the two lists differ in the receiver.
\<close>

theorem interface_methods_overwritten:
  "LookupType demo [''accounts'', ''store''] ''Reader''
     = Inr (describeType demo ''Reader'' ''store'' storePkg reader)
   \<and> t_Underlying (o_Type reader) = Interface [readFunc]
   \<and> ti_Kind (describeType demo ''Reader'' ''store'' storePkg reader) = ''interface''
   \<and> ti_Methods (describeType demo ''Reader'' ''store'' storePkg reader)
       = getTypeMethods (o_Type reader)
   \<and> ti_Methods (describeType demo ''Reader'' ''store'' storePkg reader)
       \<noteq> analyzeInterfaceMethods [readFunc]
   \<and> map mi_Receiver (ti_Methods (describeType demo ''Reader'' ''store'' storePkg reader))
       = [''store.Reader'']
   \<and> map mi_Receiver (analyzeInterfaceMethods [readFunc]) = [[]]"
proof -
  have l: "LookupType demo [''accounts'', ''store''] ''Reader''
             = Inr (describeType demo ''Reader'' ''store'' storePkg reader)"
    by (rule LookupType_found [OF initialized_demo lookupObject_Reader])
  have k: "ti_Kind (describeType demo ''Reader'' ''store'' storePkg reader) = ''interface''"
    by (simp add: describeType_def Let_def reader_def)
  have r: "map mi_Receiver (getTypeMethods (o_Type reader)) = [''store.Reader'']"
    by (simp add: getTypeMethods_def reader_def sortByName_def readFunc_def
        valueMethodInfo_def receiverOf_def Let_def)
  have i: "map mi_Receiver (analyzeInterfaceMethods [readFunc]) = [[]]"
    by (simp add: analyzeInterfaceMethods_def interfaceMethodInfo_def)
  from r i have "getTypeMethods (o_Type reader) \<noteq> analyzeInterfaceMethods [readFunc]"
    by auto
  with l k r i show ?thesis
    by (simp add: describeType_Methods reader_def)
qed

section \<open>The order of the visit\<close>

lemma analyzeUnderlying_keeps:
  "ti_Name (analyzeUnderlying ti u) = ti_Name ti"
  "ti_Package (analyzeUnderlying ti u) = ti_Package ti"
  by (cases u; simp)+

lemma describeType_Name: "ti_Name (describeType a T pkgName pkg obj) = T"
  by (simp add: describeType_def Let_def analyzeUnderlying_keeps)

lemma describeType_Package: "ti_Package (describeType a T pkgName pkg obj) = pkgName"
  by (simp add: describeType_def Let_def analyzeUnderlying_keeps)

lemma lookupObject_None:
  "lookupObject a ord T = None \<longleftrightarrow> (\<forall>p \<in> set ord. \<not> declares a p T)"
  by (induction ord) (auto simp: declares_def split: option.splits)

lemma lookupObject_Some:
  "lookupObject a ord T = Some (p, pk, obj) \<Longrightarrow>
   p \<in> set ord \<and> pkgs a p = Some pk \<and> Lookup pk T = Some obj"
  by (induction ord) (auto split: option.splits)

lemma lookupObject_declares:
  "lookupObject a ord T = Some (p, pk, obj) \<Longrightarrow> declares a p T"
  by (auto dest: lookupObject_Some simp: declares_def)

text \<open>With a single declaring package the visit finds the same object in any order.\<close>

lemma lookupObject_order:
  assumes "set ord = set ord'"
    and "\<forall>p q. declares a p T \<and> declares a q T \<longrightarrow> p = q"
  shows "lookupObject a ord T = lookupObject a ord' T"
proof (cases "lookupObject a ord T")
  case None
  then have "\<forall>p \<in> set ord'. \<not> declares a p T"
    using assms(1) by (simp add: lookupObject_None)
  then have "lookupObject a ord' T = None" by (simp add: lookupObject_None)
  with None show ?thesis by simp
next
  case (Some r)
  obtain p pk obj where r: "r = (p, pk, obj)" by (cases r)
  from Some r have 1: "p \<in> set ord" "pkgs a p = Some pk" "Lookup pk T = Some obj"
    by (auto dest: lookupObject_Some)
  then have dp: "declares a p T" by (simp add: declares_def)
  have "lookupObject a ord' T \<noteq> None"
    using 1(1) dp assms(1) by (auto simp: lookupObject_None)
  then obtain p' pk' obj' where s: "lookupObject a ord' T = Some (p', pk', obj')"
    by auto
  then have 2: "pkgs a p' = Some pk'" "Lookup pk' T = Some obj'" "declares a p' T"
    by (auto dest: lookupObject_Some lookupObject_declares)
  with dp assms(2) have "p' = p" by blast
  with 1 2 have "pk' = pk" "obj' = obj" by auto
  with Some r s \<open>p' = p\<close> show ?thesis by simp
qed

lemma iteration_demo:
  "iteration_of (pkgs demo) [''accounts'', ''store'']"
  "iteration_of (pkgs demo) [''store'', ''accounts'']"
  by (auto simp: iteration_of_def pkgs_demo)

lemma declares_demo_UserAccount: "declares demo p ''UserAccount'' \<longleftrightarrow> p = ''accounts''"
  by (simp add: declares_def pkgs_demo Lookup_def accountsPkg_def accountsConfig_def
      userAccount_def storePkg_def storeConfig_def reader_def)

text \<open>
  C4, as stated, fails: \<open>Config\<close> is declared in both packages of the small
  repository, and the two orders in which the map \<open>a.pkgs\<close> can be visited give
  descriptors of different packages.
\<close>

theorem LookupType_depends_on_order:
  "iteration_of (pkgs demo) [''accounts'', ''store'']
   \<and> iteration_of (pkgs demo) [''store'', ''accounts'']
   \<and> declares demo ''accounts'' ''Config'' \<and> declares demo ''store'' ''Config''
   \<and> LookupType demo [''accounts'', ''store''] ''Config''
       = Inr (describeType demo ''Config'' ''accounts'' accountsPkg accountsConfig)
   \<and> LookupType demo [''store'', ''accounts''] ''Config''
       = Inr (describeType demo ''Config'' ''store'' storePkg storeConfig)
   \<and> LookupType demo [''accounts'', ''store''] ''Config''
       \<noteq> LookupType demo [''store'', ''accounts''] ''Config''"
proof -
  have a: "LookupType demo [''accounts'', ''store''] ''Config''
       = Inr (describeType demo ''Config'' ''accounts'' accountsPkg accountsConfig)"
    by (simp add: LookupType_def initialized_demo pkgs_demo Lookup_def accountsPkg_def
        accountsConfig_def)
  have b: "LookupType demo [''store'', ''accounts''] ''Config''
       = Inr (describeType demo ''Config'' ''store'' storePkg storeConfig)"
    by (simp add: LookupType_def initialized_demo pkgs_demo Lookup_def storePkg_def
        storeConfig_def)
  have "ti_Package (describeType demo ''Config'' ''accounts'' accountsPkg accountsConfig)
          \<noteq> ti_Package (describeType demo ''Config'' ''store'' storePkg storeConfig)"
    by (simp add: describeType_Package)
  then have c: "describeType demo ''Config'' ''accounts'' accountsPkg accountsConfig
          \<noteq> describeType demo ''Config'' ''store'' storePkg storeConfig"
    by auto
  have d: "declares demo ''accounts'' ''Config'' \<and> declares demo ''store'' ''Config''"
    by (simp add: declares_def pkgs_demo Lookup_def accountsPkg_def accountsConfig_def
        storePkg_def storeConfig_def)
  show ?thesis using a b c d iteration_demo by simp
qed

text \<open>
  C4, amended. When at most one analyzed package declares the name, \<open>LookupType\<close>
  returns the same result (descriptor or error) for every order in which the map of
  packages is visited, hence on every call until the next \<open>Refresh\<close>.
\<close>

theorem LookupType_independent_of_order:
  assumes "iteration_of (pkgs a) ord" and "iteration_of (pkgs a) ord'"
    and "\<forall>p q. declares a p T \<and> declares a q T \<longrightarrow> p = q"
  shows "LookupType a ord T = LookupType a ord' T"
proof -
  have "set ord = set ord'" using assms(1,2) by (simp add: iteration_of_def)
  then have "lookupObject a ord T = lookupObject a ord' T"
    using assms(3) by (rule lookupObject_order)
  then show ?thesis by (simp add: LookupType_def)
qed

theorem LookupType_independent_of_order_witness:
  "iteration_of (pkgs demo) [''accounts'', ''store'']
   \<and> iteration_of (pkgs demo) [''store'', ''accounts'']
   \<and> declares demo ''accounts'' ''UserAccount''
   \<and> \<not> declares demo ''store'' ''UserAccount''
   \<and> LookupType demo [''accounts'', ''store''] ''UserAccount''
       = LookupType demo [''store'', ''accounts''] ''UserAccount''"
proof -
  have u: "\<forall>p q. declares demo p ''UserAccount'' \<and> declares demo q ''UserAccount'' \<longrightarrow> p = q"
    by (simp add: declares_demo_UserAccount)
  show ?thesis
    using LookupType_independent_of_order [OF iteration_demo(1) iteration_demo(2) u]
      iteration_demo
    by (simp add: declares_demo_UserAccount)
qed

lemma pkgs_legacyDemo:
  "pkgs legacyDemo = [''accounts'' \<mapsto> accountsPkg, ''legacy'' \<mapsto> legacyPkg]"
  by (rule ext) (simp add: legacyDemo_def initialize_def parseRepository_def
      typeCheckPackages_def generateDocumentation_def newAnalyzer_def legacyFrontEnd_def
      map_add_def Let_def)

lemma initialized_legacyDemo: "initialized legacyDemo"
  by (simp add: legacyDemo_def initialize_def parseRepository_def typeCheckPackages_def
      generateDocumentation_def newAnalyzer_def legacyFrontEnd_def Let_def)

lemma methods_of_userAccount:
  "map mi_Name (getTypeMethods (o_Type userAccount)) = [''Rename'', ''Validate'']"
  by (simp add: getTypeMethods_def userAccount_def sortByName_def validateFunc_def
      renameFunc_def valueMethodInfo_def pointerMethodInfo_def Let_def)

lemma methods_of_legacyAccount: "getTypeMethods (o_Type legacyAccount) = []"
  by (simp add: getTypeMethods_def legacyAccount_def sortByName_def Let_def)

text \<open>
  C9, as stated, fails: \<open>ListMethods\<close> and a separate call of \<open>LookupType\<close> each
  range over the map of packages on their own. With \<open>UserAccount\<close> declared in
  \<open>accounts\<close> (two methods) and in \<open>legacy\<close> (none), \<open>ListMethods\<close> visiting
  \<open>accounts\<close> first returns two methods, while \<open>LookupType\<close> visiting \<open>legacy\<close>
  first returns a descriptor without methods.
\<close>

theorem ListMethods_differs_from_LookupType_call:
  "iteration_of (pkgs legacyDemo) [''accounts'', ''legacy'']
   \<and> iteration_of (pkgs legacyDemo) [''legacy'', ''accounts'']
   \<and> ListMethods legacyDemo [''accounts'', ''legacy''] ''UserAccount''
       = Inr (getTypeMethods (o_Type userAccount))
   \<and> map mi_Name (getTypeMethods (o_Type userAccount)) = [''Rename'', ''Validate'']
   \<and> LookupType legacyDemo [''legacy'', ''accounts''] ''UserAccount''
       = Inr (describeType legacyDemo ''UserAccount'' ''legacy'' legacyPkg legacyAccount)
   \<and> ti_Methods (describeType legacyDemo ''UserAccount'' ''legacy'' legacyPkg legacyAccount)
       = []
   \<and> ListMethods legacyDemo [''accounts'', ''legacy''] ''UserAccount''
       \<noteq> map_sum id ti_Methods
           (LookupType legacyDemo [''legacy'', ''accounts''] ''UserAccount'')"
proof -
  have it: "iteration_of (pkgs legacyDemo) [''accounts'', ''legacy'']"
    "iteration_of (pkgs legacyDemo) [''legacy'', ''accounts'']"
    by (auto simp: iteration_of_def pkgs_legacyDemo)
  have "LookupType legacyDemo [''accounts'', ''legacy''] ''UserAccount''
       = Inr (describeType legacyDemo ''UserAccount'' ''accounts'' accountsPkg userAccount)"
    by (simp add: LookupType_def initialized_legacyDemo pkgs_legacyDemo Lookup_def
        accountsPkg_def accountsConfig_def userAccount_def)
  then have l: "ListMethods legacyDemo [''accounts'', ''legacy''] ''UserAccount''
       = Inr (getTypeMethods (o_Type userAccount))"
    by (simp add: ListMethods_def describeType_Methods)
  have k: "LookupType legacyDemo [''legacy'', ''accounts''] ''UserAccount''
       = Inr (describeType legacyDemo ''UserAccount'' ''legacy'' legacyPkg legacyAccount)"
    by (simp add: LookupType_def initialized_legacyDemo pkgs_legacyDemo Lookup_def
        legacyPkg_def legacyAccount_def)
  have m: "ti_Methods (describeType legacyDemo ''UserAccount'' ''legacy'' legacyPkg
             legacyAccount) = []"
    by (simp add: describeType_Methods methods_of_legacyAccount)
  have "getTypeMethods (o_Type userAccount) \<noteq> []"
    using methods_of_userAccount by auto
  then have d: "ListMethods legacyDemo [''accounts'', ''legacy''] ''UserAccount''
       \<noteq> map_sum id ti_Methods
           (LookupType legacyDemo [''legacy'', ''accounts''] ''UserAccount'')"
    by (simp add: l k m)
  show ?thesis using it l methods_of_userAccount k m d by blast
qed

text \<open>
  C9, amended. For a type name that at most one analyzed package declares,
  \<open>ListMethods\<close> returns exactly the methods of the descriptor that \<open>LookupType\<close>
  returns for that name, in the same order, and fails exactly when \<open>LookupType\<close>
  fails, with the same error, whatever order each of the two calls takes through the
  map of packages. For any name, \<open>ListMethods\<close> returns the methods, or the error, of
  the \<open>LookupType\<close> call that it makes itself.
\<close>

theorem ListMethods_returns_LookupType_Methods:
  assumes "iteration_of (pkgs a) ord" and "iteration_of (pkgs a) ord'"
    and "\<forall>p q. declares a p T \<and> declares a q T \<longrightarrow> p = q"
  shows "ListMethods a ord T = map_sum id ti_Methods (LookupType a ord' T)
       \<and> ListMethods a ord U = map_sum id ti_Methods (LookupType a ord U)"
proof -
  have own: "ListMethods a ord X = map_sum id ti_Methods (LookupType a ord X)" for X
    by (simp add: ListMethods_def split: sum.splits)
  have "set ord = set ord'" using assms(1,2) by (simp add: iteration_of_def)
  then have "lookupObject a ord T = lookupObject a ord' T"
    using assms(3) by (rule lookupObject_order)
  then have "LookupType a ord T = LookupType a ord' T" by (simp add: LookupType_def)
  with own [of T] own [of U] show ?thesis by simp
qed

theorem ListMethods_returns_LookupType_Methods_witness:
  "iteration_of (pkgs demo) [''accounts'', ''store'']
   \<and> iteration_of (pkgs demo) [''store'', ''accounts'']
   \<and> declares demo ''accounts'' ''UserAccount'' \<and> \<not> declares demo ''store'' ''UserAccount''
   \<and> LookupType demo [''store'', ''accounts''] ''UserAccount''
       = Inr (describeType demo ''UserAccount'' ''accounts'' accountsPkg userAccount)
   \<and> ListMethods demo [''accounts'', ''store''] ''UserAccount''
       = Inr (ti_Methods (describeType demo ''UserAccount'' ''accounts'' accountsPkg
                userAccount))
   \<and> ListMethods demo [''accounts'', ''store''] ''Missing'' = Inl (TypeNotFound ''Missing'')
   \<and> LookupType demo [''store'', ''accounts''] ''Missing'' = Inl (TypeNotFound ''Missing'')"
proof -
  have u: "\<forall>p q. declares demo p ''UserAccount'' \<and> declares demo q ''UserAccount'' \<longrightarrow> p = q"
    by (simp add: declares_demo_UserAccount)
  have nd: "declares demo p ''Missing'' \<longleftrightarrow> False" for p
    by (simp add: declares_def pkgs_demo Lookup_def accountsPkg_def accountsConfig_def
        userAccount_def storePkg_def storeConfig_def reader_def)
  then have v: "\<forall>p q. declares demo p ''Missing'' \<and> declares demo q ''Missing'' \<longrightarrow> p = q"
    by simp
  have k: "LookupType demo [''store'', ''accounts''] ''UserAccount''
       = Inr (describeType demo ''UserAccount'' ''accounts'' accountsPkg userAccount)"
    by (simp add: LookupType_def initialized_demo pkgs_demo Lookup_def accountsPkg_def
        accountsConfig_def userAccount_def storePkg_def storeConfig_def reader_def)
  have n: "LookupType demo [''store'', ''accounts''] ''Missing'' = Inl (TypeNotFound ''Missing'')"
    by (simp add: LookupType_def initialized_demo pkgs_demo Lookup_def accountsPkg_def
        accountsConfig_def userAccount_def storePkg_def storeConfig_def reader_def)
  from ListMethods_returns_LookupType_Methods [OF iteration_demo(1) iteration_demo(2) u,
      of "''UserAccount''"]
  have "ListMethods demo [''accounts'', ''store''] ''UserAccount''
      = map_sum id ti_Methods (LookupType demo [''store'', ''accounts''] ''UserAccount'')"
    by blast
  with k have a: "ListMethods demo [''accounts'', ''store''] ''UserAccount''
       = Inr (ti_Methods (describeType demo ''UserAccount'' ''accounts'' accountsPkg
                userAccount))"
    by simp
  from ListMethods_returns_LookupType_Methods [OF iteration_demo(1) iteration_demo(2) v,
      of "''Missing''"]
  have "ListMethods demo [''accounts'', ''store''] ''Missing''
      = map_sum id ti_Methods (LookupType demo [''store'', ''accounts''] ''Missing'')"
    by blast
  with n have b: "ListMethods demo [''accounts'', ''store''] ''Missing''
       = Inl (TypeNotFound ''Missing'')"
    by simp
  show ?thesis using iteration_demo k a b n by (simp add: declares_demo_UserAccount)
qed

section \<open>Properties of SearchTypes\<close>

lemma Lookup_name: "Lookup pk n = Some obj \<Longrightarrow> o_Name obj = n"
  by (auto simp: Lookup_def dest: find_Some_iff [THEN iffD1])

lemma LookupType_name: "LookupType a ord T = Inr ti \<Longrightarrow> ti_Name ti = T"
  by (auto simp: LookupType_def describeType_Name split: if_splits option.splits)

text \<open>
  On an initialized analyzer, the nested \<open>LookupType\<close> of a name found in a scope
  succeeds as soon as its visit reaches that package.
\<close>

lemma LookupType_succeeds:
  assumes "initialized a" "pkgs a p = Some pk" "Lookup pk n = Some obj" "p \<in> set ord"
  shows "\<exists>ti. LookupType a ord n = Inr ti \<and> ti_Name ti = n"
proof -
  have "declares a p n" using assms(2,3) by (simp add: declares_def)
  then have "lookupObject a ord n \<noteq> None"
    using assms(4) by (auto simp: lookupObject_None)
  then obtain r where "lookupObject a ord n = Some r" by auto
  then have "\<exists>ti. LookupType a ord n = Inr ti"
    using assms(1) by (cases r) (simp add: LookupType_def)
  then show ?thesis by (auto dest: LookupType_name)
qed

lemma Contains_sublist: "Contains s sub \<longleftrightarrow> sublist sub s"
  by (induction s) (auto simp: sublist_Cons_right)

lemma typeNamesOf_Cons:
  "typeNamesOf pk (n # names) =
     (case Lookup pk n of
        None \<Rightarrow> typeNamesOf pk names
      | Some obj \<Rightarrow> (if isTypeName obj then n # typeNamesOf pk names else typeNamesOf pk names))"
  by (auto simp: typeNamesOf_def List.map_filter_simps dest: Lookup_name split: option.splits)

lemma typeNamesOf_Nil [simp]: "typeNamesOf pk [] = []"
  by (simp add: typeNamesOf_def List.map_filter_simps)

lemma searchNames_names:
  assumes "initialized a" and "pkgs a p = Some pk" and "\<forall>n. p \<in> set (ords p n)"
  shows "map ti_Name (searchNames lower a ords q p pk names results)
           = map ti_Name results
             @ filter (\<lambda>n. Contains (ToLower lower n) q) (typeNamesOf pk names)"
proof (induction names arbitrary: results)
  case Nil
  show ?case by simp
next
  case (Cons n names)
  show ?case
  proof (cases "Lookup pk n")
    case None
    then show ?thesis using Cons by (simp add: typeNamesOf_Cons)
  next
    case (Some obj)
    then have nm: "o_Name obj = n" by (rule Lookup_name)
    from assms(3) have "p \<in> set (ords p n)" by simp
    from LookupType_succeeds [OF assms(1,2) Some this]
    obtain ti where ti: "LookupType a (ords p n) n = Inr ti" "ti_Name ti = n" by blast
    show ?thesis using Some nm ti Cons by (simp add: typeNamesOf_Cons)
  qed
qed

lemma searchPkgs_names:
  assumes "initialized a" and "\<forall>p n. p \<in> dom (pkgs a) \<longrightarrow> p \<in> set (ords p n)"
  shows "map ti_Name (searchPkgs lower a ords q ord results)
           = map ti_Name results
             @ concat (map (\<lambda>p. filter (\<lambda>n. Contains (ToLower lower n) q) (typeNames a p))
                 ord)"
proof (induction ord arbitrary: results)
  case Nil
  show ?case by simp
next
  case (Cons p ord)
  show ?case
  proof (cases "pkgs a p")
    case None
    then show ?thesis using Cons by (simp add: typeNames_def)
  next
    case (Some pk)
    then have "\<forall>n. p \<in> set (ords p n)" using assms(2) by auto
    from searchNames_names [where a = a and p = p and pk = pk and ords = ords,
        OF assms(1) Some this]
    show ?thesis using Some Cons by (simp add: typeNames_def)
  qed
qed

text \<open>Every descriptor in the result is what a nested \<open>LookupType\<close> has returned.\<close>

lemma searchNames_from_LookupType:
  "set (searchNames lower a ords q p pk names results)
     \<subseteq> set results \<union> {r. \<exists>p n. LookupType a (ords p n) (ti_Name r) = Inr r}"
proof (induction names arbitrary: results)
  case Nil
  show ?case by simp
next
  case (Cons n names)
  show ?case
  proof (cases "Lookup pk n")
    case None
    then show ?thesis using Cons by simp
  next
    case (Some obj)
    show ?thesis
    proof (cases "LookupType a (ords p n) (o_Name obj)")
      case (Inl e)
      then show ?thesis using Some Cons by simp
    next
      case (Inr ti)
      then have "ti_Name ti = o_Name obj" by (rule LookupType_name)
      with Inr have "ti \<in> {r. \<exists>p n. LookupType a (ords p n) (ti_Name r) = Inr r}" by auto
      then show ?thesis using Some Inr Cons [of results] Cons [of "results @ [ti]"] by auto
    qed
  qed
qed

lemma searchPkgs_from_LookupType:
  "set (searchPkgs lower a ords q ord results)
     \<subseteq> set results \<union> {r. \<exists>p n. LookupType a (ords p n) (ti_Name r) = Inr r}"
proof (induction ord arbitrary: results)
  case Nil
  show ?case by simp
next
  case (Cons p ord)
  show ?case
  proof (cases "pkgs a p")
    case None
    then show ?thesis using Cons by simp
  next
    case (Some pk)
    then show ?thesis
      using Cons [of "searchNames lower a ords q p pk (Names pk) results"]
        searchNames_from_LookupType [of lower a ords q p pk "Names pk" results]
      by auto
  qed
qed

text \<open>
  When no name is declared by two packages, the nested \<open>LookupType\<close> returns the
  descriptor of the very object that \<open>SearchTypes\<close> has at hand.
\<close>

lemma LookupType_own:
  assumes "initialized a" "pkgs a p = Some pk" "Lookup pk n = Some obj" "p \<in> set ord"
    and "\<forall>p q. declares a p n \<and> declares a q n \<longrightarrow> p = q"
  shows "LookupType a ord n = Inr (describeType a n p pk obj)"
proof -
  have dp: "declares a p n" using assms(2,3) by (simp add: declares_def)
  then have "lookupObject a ord n \<noteq> None"
    using assms(4) by (auto simp: lookupObject_None)
  then obtain p' pk' obj' where s: "lookupObject a ord n = Some (p', pk', obj')" by auto
  then have 2: "pkgs a p' = Some pk'" "Lookup pk' n = Some obj'" "declares a p' n"
    by (auto dest: lookupObject_Some lookupObject_declares)
  with dp assms(5) have "p' = p" by blast
  with assms(2,3) 2 have "pk' = pk" "obj' = obj" by auto
  with s \<open>p' = p\<close> assms(1) show ?thesis by (simp add: LookupType_def)
qed

lemma searchNames_own:
  assumes "initialized a" and "pkgs a p = Some pk" and "\<forall>n. p \<in> set (ords p n)"
    and "\<forall>n p q. declares a p n \<and> declares a q n \<longrightarrow> p = q"
  shows "searchNames lower a ords q p pk names results
           = results
             @ map (\<lambda>obj. describeType a (o_Name obj) p pk obj)
                 (filter (\<lambda>obj. isTypeName obj \<and> Contains (ToLower lower (o_Name obj)) q)
                    (List.map_filter (Lookup pk) names))"
proof (induction names arbitrary: results)
  case Nil
  show ?case by (simp add: List.map_filter_simps)
next
  case (Cons n names)
  show ?case
  proof (cases "Lookup pk n")
    case None
    then show ?thesis using Cons by (simp add: List.map_filter_simps)
  next
    case (Some obj)
    then have nm: "o_Name obj = n" by (rule Lookup_name)
    from assms(3) have in_ord: "p \<in> set (ords p n)" by simp
    from assms(4) have "\<forall>p q. declares a p n \<and> declares a q n \<longrightarrow> p = q" by blast
    from LookupType_own [OF assms(1,2) Some in_ord this]
    have "LookupType a (ords p n) n = Inr (describeType a n p pk obj)" .
    then show ?thesis using Some nm Cons by (simp add: List.map_filter_simps)
  qed
qed

lemma searchPkgs_own:
  assumes "initialized a" and "\<forall>p n. p \<in> dom (pkgs a) \<longrightarrow> p \<in> set (ords p n)"
    and "\<forall>n p q. declares a p n \<and> declares a q n \<longrightarrow> p = q"
  shows "searchPkgs lower a ords (ToLower lower query) ord results
           = results @ concat (map (ownDescriptors lower a query) ord)"
proof (induction ord arbitrary: results)
  case Nil
  show ?case by simp
next
  case (Cons p ord)
  show ?case
  proof (cases "pkgs a p")
    case None
    then show ?thesis using Cons by (simp add: ownDescriptors_def)
  next
    case (Some pk)
    then have "\<forall>n. p \<in> set (ords p n)" using assms(2) by auto
    from searchNames_own [where a = a and p = p and pk = pk and ords = ords,
        OF assms(1) Some this assms(3)]
    show ?thesis using Some Cons by (simp add: ownDescriptors_def matches_def)
  qed
qed

lemma pkgs_tidy: "pkgs tidy = [''accounts'' \<mapsto> accountsPkg, ''store'' \<mapsto> storeReaderPkg]"
  by (rule ext) (simp add: tidy_def initialize_def parseRepository_def typeCheckPackages_def
      generateDocumentation_def newAnalyzer_def tidyFrontEnd_def map_add_def Let_def)

lemma initialized_tidy: "initialized tidy"
  by (simp add: tidy_def initialize_def parseRepository_def typeCheckPackages_def
      generateDocumentation_def newAnalyzer_def tidyFrontEnd_def Let_def)

lemma declares_tidy:
  "declares tidy p n \<longleftrightarrow>
     p = ''accounts'' \<and> (n = ''Config'' \<or> n = ''UserAccount'') \<or> p = ''store'' \<and> n = ''Reader''"
  by (auto simp: declares_def pkgs_tidy Lookup_def accountsPkg_def storeReaderPkg_def
      accountsConfig_def userAccount_def reader_def split: if_splits)

text \<open>On ASCII strings the Unicode mapping plays no part.\<close>

lemma ToLower_ascii: "isASCII s \<Longrightarrow> ToLower lower s = map toLowerByte s"
  by (simp add: ToLower_def)

lemma matches_ascii:
  "isASCII n \<Longrightarrow> isASCII q \<Longrightarrow>
   matches lower n q \<longleftrightarrow> Contains (map toLowerByte n) (map toLowerByte q)"
  by (simp add: matches_def ToLower_ascii)

lemma matches_UserAccount:
  "matches lower ''UserAccount'' ''user''"
  "matches lower ''UserAccount'' ''ACCOUNT''"
  "\<not> matches lower ''UserAccount'' ''xyz''"
proof -
  have a: "isASCII ''UserAccount''" "isASCII ''user''" "isASCII ''ACCOUNT''" "isASCII ''xyz''"
    by code_simp+
  have c: "Contains (map toLowerByte ''UserAccount'') (map toLowerByte ''user'')"
    "Contains (map toLowerByte ''UserAccount'') (map toLowerByte ''ACCOUNT'')"
    "\<not> Contains (map toLowerByte ''UserAccount'') (map toLowerByte ''xyz'')"
    by code_simp+
  show "matches lower ''UserAccount'' ''user''"
    using matches_ascii [OF a(1) a(2), of lower] c(1) by blast
  show "matches lower ''UserAccount'' ''ACCOUNT''"
    using matches_ascii [OF a(1) a(3), of lower] c(2) by blast
  show "\<not> matches lower ''UserAccount'' ''xyz''"
    using matches_ascii [OF a(1) a(4), of lower] c(3) by blast
qed

lemma ToLower_Nil [simp]: "ToLower lower [] = []"
  by (simp add: ToLower_def isASCII_def)

lemma Contains_Nil [simp]: "Contains s []"
  by (cases s) simp_all

lemma matches_Nil [simp]: "matches lower n []"
  by (simp add: matches_def)

lemma typeNames_demo:
  "typeNames demo ''accounts'' = [''Config'', ''UserAccount'']"
  "typeNames demo ''store'' = [''Config'', ''Reader'']"
  by (simp_all add: typeNames_def pkgs_demo typeNamesOf_def Names_def Lookup_def
      List.map_filter_simps isTypeName_def accountsPkg_def storePkg_def accountsConfig_def
      userAccount_def storeConfig_def reader_def)

lemma matches_demo:
  "\<not> matches asciiLower ''Config'' ''user''" "\<not> matches asciiLower ''Reader'' ''user''"
  "\<not> matches asciiLower ''Config'' ''ACCOUNT''" "\<not> matches asciiLower ''Reader'' ''ACCOUNT''"
  "\<not> matches asciiLower ''Config'' ''xyz''" "\<not> matches asciiLower ''Reader'' ''xyz''"
  by code_simp+

text \<open>
  C6, as stated, fails where two packages declare a type of the same name: the nested
  \<open>LookupType\<close> resolves the name again and stops at the first package of its visit.
  In the small repository, with the packages visited in the order \<open>accounts\<close>,
  \<open>store\<close> throughout, the empty query returns the descriptor of \<open>accounts.Config\<close>
  twice and no descriptor of the map type \<open>store.Config\<close>. It fails also on an
  analyzer that is not initialized: after \<open>Close\<close> the nested calls fail and the
  empty query returns nothing, although the packages and their types are still there.
\<close>

theorem SearchTypes_repeats_first_declaration:
  "initialized demo
   \<and> iteration_of (pkgs demo) [''accounts'', ''store'']
   \<and> typeNames demo ''store'' = [''Config'', ''Reader'']
   \<and> SearchTypes asciiLower demo [''accounts'', ''store''] (always [''accounts'', ''store'']) []
       = Inr [describeType demo ''Config'' ''accounts'' accountsPkg accountsConfig,
              describeType demo ''UserAccount'' ''accounts'' accountsPkg userAccount,
              describeType demo ''Config'' ''accounts'' accountsPkg accountsConfig,
              describeType demo ''Reader'' ''store'' storePkg reader]
   \<and> map ti_Package
        [describeType demo ''Config'' ''accounts'' accountsPkg accountsConfig,
         describeType demo ''UserAccount'' ''accounts'' accountsPkg userAccount,
         describeType demo ''Config'' ''accounts'' accountsPkg accountsConfig,
         describeType demo ''Reader'' ''store'' storePkg reader]
       = [''accounts'', ''accounts'', ''accounts'', ''store'']
   \<and> map ti_Name
        [describeType demo ''Config'' ''accounts'' accountsPkg accountsConfig,
         describeType demo ''UserAccount'' ''accounts'' accountsPkg userAccount,
         describeType demo ''Config'' ''accounts'' accountsPkg accountsConfig,
         describeType demo ''Reader'' ''store'' storePkg reader]
       = [''Config'', ''UserAccount'', ''Config'', ''Reader'']
   \<and> \<not> initialized (Close demo)
   \<and> typeNames (Close demo) ''accounts'' = [''Config'', ''UserAccount'']
   \<and> SearchTypes asciiLower (Close demo) [''accounts'', ''store''] (always [''accounts'', ''store'']) []
       = Inr []"
proof -
  have l: "LookupType demo [''accounts'', ''store''] ''Config''
             = Inr (describeType demo ''Config'' ''accounts'' accountsPkg accountsConfig)"
    "LookupType demo [''accounts'', ''store''] ''UserAccount''
             = Inr (describeType demo ''UserAccount'' ''accounts'' accountsPkg userAccount)"
    "LookupType demo [''accounts'', ''store''] ''Reader''
             = Inr (describeType demo ''Reader'' ''store'' storePkg reader)"
    by (simp_all add: LookupType_def initialized_demo pkgs_demo Lookup_def accountsPkg_def
        accountsConfig_def userAccount_def storePkg_def storeConfig_def reader_def)
  have s: "SearchTypes asciiLower demo [''accounts'', ''store''] (always [''accounts'', ''store'']) []
       = Inr [describeType demo ''Config'' ''accounts'' accountsPkg accountsConfig,
              describeType demo ''UserAccount'' ''accounts'' accountsPkg userAccount,
              describeType demo ''Config'' ''accounts'' accountsPkg accountsConfig,
              describeType demo ''Reader'' ''store'' storePkg reader]"
  proof -
    have n: "Names accountsPkg = [''Config'', ''UserAccount'']"
      "Names storePkg = [''Config'', ''Reader'']"
      by (simp_all add: Names_def accountsPkg_def storePkg_def accountsConfig_def
          userAccount_def storeConfig_def reader_def)
    have k: "Lookup accountsPkg ''Config'' = Some accountsConfig"
      "Lookup accountsPkg ''UserAccount'' = Some userAccount"
      "Lookup storePkg ''Config'' = Some storeConfig"
      "Lookup storePkg ''Reader'' = Some reader"
      by (simp_all add: Lookup_def accountsPkg_def storePkg_def accountsConfig_def
          userAccount_def storeConfig_def reader_def)
    have t: "isTypeName accountsConfig" "isTypeName userAccount" "isTypeName storeConfig"
      "isTypeName reader"
      "o_Name accountsConfig = ''Config''" "o_Name userAccount = ''UserAccount''"
      "o_Name storeConfig = ''Config''" "o_Name reader = ''Reader''"
      by (simp_all add: isTypeName_def accountsConfig_def userAccount_def storeConfig_def
          reader_def)
    show ?thesis
      by (simp add: SearchTypes_def pkgs_demo n k t l always_def)
  qed
  have c: "\<not> initialized (Close demo)" by (simp add: Close_def)
  have pk: "pkgs (Close demo) = [''accounts'' \<mapsto> accountsPkg, ''store'' \<mapsto> storePkg]"
    by (simp add: Close_def pkgs_demo)
  have tn: "typeNames (Close demo) ''accounts'' = [''Config'', ''UserAccount'']"
    using typeNames_demo(1) by (simp add: typeNames_def pk pkgs_demo)
  have sc: "SearchTypes asciiLower (Close demo) [''accounts'', ''store'']
       (always [''accounts'', ''store'']) [] = Inr []"
    by (simp add: SearchTypes_def pk Names_def Lookup_def accountsPkg_def storePkg_def
        accountsConfig_def userAccount_def storeConfig_def reader_def isTypeName_def
        LookupType_def c ToLower_def)
  show ?thesis
    using initialized_demo iteration_demo(1) s c tn sc
    by (simp add: typeNames_demo describeType_Package describeType_Name)
qed

text \<open>
  C6, amended. On an initialized analyzer \<open>SearchTypes\<close> never fails and returns, in
  the order of the visit, one descriptor for each named type whose name in lower case
  contains the query in lower case as a contiguous substring; each descriptor carries
  that name and is the result of \<open>LookupType\<close> on it, and where no name is declared by
  two packages it is the descriptor of the type itself. So the empty query returns a
  descriptor for every named type, a query that no name contains returns the empty list,
  and \<open>UserAccount\<close> is matched by \<open>user\<close>, \<open>ACCOUNT\<close> and the empty query but
  not by \<open>xyz\<close>. Lower case is that of \<open>strings.ToLower\<close>: the statement holds for
  every Unicode mapping \<open>lower\<close> that the library may apply to strings outside ASCII.
\<close>

theorem SearchTypes_substring_match:
  assumes "initialized a"
    and "\<forall>p n. iteration_of (pkgs a) (ords p n)"
  shows "(\<exists>rs. SearchTypes lower a ord ords query = Inr rs
            \<and> map ti_Name rs
                = concat (map (\<lambda>p. filter (\<lambda>n. matches lower n query) (typeNames a p)) ord)
            \<and> (\<forall>r \<in> set rs. \<exists>p n. LookupType a (ords p n) (ti_Name r) = Inr r))
       \<and> (\<exists>rs. SearchTypes lower a ord ords [] = Inr rs
            \<and> map ti_Name rs = concat (map (typeNames a) ord))
       \<and> ((\<forall>n p q. declares a p n \<and> declares a q n \<longrightarrow> p = q)
            \<longrightarrow> SearchTypes lower a ord ords query
                  = Inr (concat (map (ownDescriptors lower a query) ord)))
       \<and> ((\<forall>p \<in> set ord. \<forall>n \<in> set (typeNames a p). \<not> matches lower n query)
            \<longrightarrow> SearchTypes lower a ord ords query = Inr [])
       \<and> (matches lower n query \<longleftrightarrow> sublist (ToLower lower query) (ToLower lower n))
       \<and> matches lower ''UserAccount'' ''user'' \<and> matches lower ''UserAccount'' ''ACCOUNT''
       \<and> matches lower ''UserAccount'' [] \<and> \<not> matches lower ''UserAccount'' ''xyz''"
proof -
  have cover: "\<forall>p n. p \<in> dom (pkgs a) \<longrightarrow> p \<in> set (ords p n)"
    using assms(2) by (simp add: iteration_of_def)
  have names: "map ti_Name (searchPkgs lower a ords (ToLower lower q) ord [])
      = concat (map (\<lambda>p. filter (\<lambda>n. matches lower n q) (typeNames a p)) ord)" for q
    using searchPkgs_names [OF assms(1) cover, of lower "ToLower lower q" ord "[]"]
    by (simp add: matches_def)
  have src: "\<forall>r \<in> set (searchPkgs lower a ords (ToLower lower query) ord []).
               \<exists>p n. LookupType a (ords p n) (ti_Name r) = Inr r"
    using searchPkgs_from_LookupType [of lower a ords "ToLower lower query" ord "[]"]
    by auto
  have 1: "\<exists>rs. SearchTypes lower a ord ords query = Inr rs
            \<and> map ti_Name rs
                = concat (map (\<lambda>p. filter (\<lambda>n. matches lower n query) (typeNames a p)) ord)
            \<and> (\<forall>r \<in> set rs. \<exists>p n. LookupType a (ords p n) (ti_Name r) = Inr r)"
    using names [of query] src by (simp add: SearchTypes_def)
  have 2: "\<exists>rs. SearchTypes lower a ord ords [] = Inr rs
            \<and> map ti_Name rs = concat (map (typeNames a) ord)"
    using names [of "[]"] by (simp add: SearchTypes_def)
  have 3: "(\<forall>p \<in> set ord. \<forall>n \<in> set (typeNames a p). \<not> matches lower n query)
            \<longrightarrow> SearchTypes lower a ord ords query = Inr []"
  proof
    assume no: "\<forall>p \<in> set ord. \<forall>n \<in> set (typeNames a p). \<not> matches lower n query"
    then have "\<forall>p \<in> set ord. filter (\<lambda>n. matches lower n query) (typeNames a p) = []"
      by (simp add: filter_empty_conv)
    then have "concat (map (\<lambda>p. filter (\<lambda>n. matches lower n query) (typeNames a p)) ord) = []"
      by simp
    with names [of query] show "SearchTypes lower a ord ords query = Inr []"
      by (simp add: SearchTypes_def)
  qed
  have 4: "matches lower n query \<longleftrightarrow> sublist (ToLower lower query) (ToLower lower n)"
    by (simp add: matches_def Contains_sublist)
  note 5 = matches_UserAccount [of lower]
  have 6: "(\<forall>n p q. declares a p n \<and> declares a q n \<longrightarrow> p = q)
            \<longrightarrow> SearchTypes lower a ord ords query
                  = Inr (concat (map (ownDescriptors lower a query) ord))"
    using searchPkgs_own [OF assms(1) cover, of lower query ord "[]"]
    by (simp add: SearchTypes_def)
  show ?thesis using 1 2 3 4 5 6 by simp
qed

theorem SearchTypes_substring_match_witness:
  "initialized demo
   \<and> (\<forall>p n. iteration_of (pkgs demo) (always [''store'', ''accounts''] p n))
   \<and> (\<exists>rs. SearchTypes asciiLower demo [''accounts'', ''store'']
               (always [''store'', ''accounts'']) ''user'' = Inr rs
          \<and> map ti_Name rs = [''UserAccount''])
   \<and> (\<exists>rs. SearchTypes asciiLower demo [''accounts'', ''store'']
               (always [''store'', ''accounts'']) ''ACCOUNT'' = Inr rs
          \<and> map ti_Name rs = [''UserAccount''])
   \<and> (\<exists>rs. SearchTypes asciiLower demo [''accounts'', ''store'']
               (always [''store'', ''accounts'']) [] = Inr rs
          \<and> map ti_Name rs = [''Config'', ''UserAccount'', ''Config'', ''Reader''])
   \<and> SearchTypes asciiLower demo [''accounts'', ''store'']
         (always [''store'', ''accounts'']) ''xyz'' = Inr []
   \<and> initialized tidy
   \<and> (\<forall>p n. iteration_of (pkgs tidy) (always [''store'', ''accounts''] p n))
   \<and> declares tidy ''accounts'' ''UserAccount'' \<and> declares tidy ''store'' ''Reader''
   \<and> SearchTypes asciiLower tidy [''accounts'', ''store'']
         (always [''store'', ''accounts'']) ''e''
       = Inr [describeType tidy ''UserAccount'' ''accounts'' accountsPkg userAccount,
              describeType tidy ''Reader'' ''store'' storeReaderPkg reader]"
proof -
  let ?O = "[''accounts'', ''store'']"
  let ?A = "always [''store'', ''accounts'']"
  have it: "\<forall>p n. iteration_of (pkgs demo) (?A p n)"
    by (simp add: always_def iteration_demo)
  note mu = matches_UserAccount [of asciiLower]
  have "\<exists>rs. SearchTypes asciiLower demo ?O ?A ''user'' = Inr rs
          \<and> map ti_Name rs
              = concat (map (\<lambda>p. filter (\<lambda>n. matches asciiLower n ''user'')
                                (typeNames demo p)) ?O)"
    using SearchTypes_substring_match [OF initialized_demo it,
        where lower = asciiLower and ord = ?O and query = "''user''" and n = "[]"]
    by blast
  then have u: "\<exists>rs. SearchTypes asciiLower demo ?O ?A ''user'' = Inr rs
          \<and> map ti_Name rs = [''UserAccount'']"
    by (simp add: typeNames_demo matches_demo mu)
  have "\<exists>rs. SearchTypes asciiLower demo ?O ?A ''ACCOUNT'' = Inr rs
          \<and> map ti_Name rs
              = concat (map (\<lambda>p. filter (\<lambda>n. matches asciiLower n ''ACCOUNT'')
                                (typeNames demo p)) ?O)"
    using SearchTypes_substring_match [OF initialized_demo it,
        where lower = asciiLower and ord = ?O and query = "''ACCOUNT''" and n = "[]"]
    by blast
  then have c: "\<exists>rs. SearchTypes asciiLower demo ?O ?A ''ACCOUNT'' = Inr rs
          \<and> map ti_Name rs = [''UserAccount'']"
    by (simp add: typeNames_demo matches_demo mu)
  have "\<exists>rs. SearchTypes asciiLower demo ?O ?A [] = Inr rs
          \<and> map ti_Name rs = concat (map (typeNames demo) ?O)"
    using SearchTypes_substring_match [OF initialized_demo it,
        where lower = asciiLower and ord = ?O and query = "[]" and n = "[]"]
    by blast
  then have e: "\<exists>rs. SearchTypes asciiLower demo ?O ?A [] = Inr rs
          \<and> map ti_Name rs = [''Config'', ''UserAccount'', ''Config'', ''Reader'']"
    by (simp add: typeNames_demo)
  have none: "\<forall>p \<in> set ?O. \<forall>n \<in> set (typeNames demo p). \<not> matches asciiLower n ''xyz''"
    by (simp add: typeNames_demo matches_demo mu)
  have "(\<forall>p \<in> set ?O. \<forall>n \<in> set (typeNames demo p). \<not> matches asciiLower n ''xyz'')
          \<longrightarrow> SearchTypes asciiLower demo ?O ?A ''xyz'' = Inr []"
    using SearchTypes_substring_match [OF initialized_demo it,
        where lower = asciiLower and ord = ?O and query = "''xyz''" and n = "[]"]
    by blast
  with none have x: "SearchTypes asciiLower demo ?O ?A ''xyz'' = Inr []" by blast
  have its: "\<forall>p n. iteration_of (pkgs tidy) (?A p n)"
    by (auto simp: always_def iteration_of_def pkgs_tidy)
  have uniq: "\<forall>n p q. declares tidy p n \<and> declares tidy q n \<longrightarrow> p = q"
    by (auto simp: declares_tidy)
  have d: "declares tidy ''accounts'' ''UserAccount''" "declares tidy ''store'' ''Reader''"
    by (simp_all add: declares_tidy)
  have me: "\<not> matches asciiLower ''Config'' ''e''" "matches asciiLower ''UserAccount'' ''e''"
    "matches asciiLower ''Reader'' ''e''"
    by code_simp+
  have "(\<forall>n p q. declares tidy p n \<and> declares tidy q n \<longrightarrow> p = q)
          \<longrightarrow> SearchTypes asciiLower tidy ?O ?A ''e''
                = Inr (concat (map (ownDescriptors asciiLower tidy ''e'') ?O))"
    using SearchTypes_substring_match [OF initialized_tidy its,
        where lower = asciiLower and ord = ?O and query = "''e''" and n = "[]"]
    by blast
  with uniq have "SearchTypes asciiLower tidy ?O ?A ''e''
                = Inr (concat (map (ownDescriptors asciiLower tidy ''e'') ?O))"
    by blast
  moreover have "ownDescriptors asciiLower tidy ''e'' ''accounts''
      = [describeType tidy ''UserAccount'' ''accounts'' accountsPkg userAccount]"
    by (simp add: ownDescriptors_def pkgs_tidy Names_def Lookup_def List.map_filter_simps
        isTypeName_def accountsPkg_def accountsConfig_def userAccount_def me)
  moreover have "ownDescriptors asciiLower tidy ''e'' ''store''
      = [describeType tidy ''Reader'' ''store'' storeReaderPkg reader]"
    by (simp add: ownDescriptors_def pkgs_tidy Names_def Lookup_def List.map_filter_simps
        isTypeName_def storeReaderPkg_def reader_def me)
  ultimately have o: "SearchTypes asciiLower tidy ?O ?A ''e''
       = Inr [describeType tidy ''UserAccount'' ''accounts'' accountsPkg userAccount,
              describeType tidy ''Reader'' ''store'' storeReaderPkg reader]"
    by simp
  show ?thesis using initialized_demo it u c e x initialized_tidy its d o by blast
qed

section \<open>The initialized flag\<close>

lemma not_initialized_guard:
  assumes "\<not> initialized a"
  shows "LookupType a ord T = Inl NotInitialized"
    and "ListMethods a ord T = Inl NotInitialized"
    and "AnalyzeRepository a ord ords ord' = Inl NotInitialized"
  using assms by (simp_all add: LookupType_def ListMethods_def AnalyzeRepository_def)

lemma Refresh_fails_iff: "isl (fst (Refresh a fe)) \<longleftrightarrow> fe_WalkError fe \<noteq> None"
  by (auto simp: Refresh_def initialize_def parseRepository_def Let_def split: option.splits)

lemma Refresh_failed:
  assumes "isl (fst (Refresh a fe))"
  shows "\<not> initialized (snd (Refresh a fe))"
    and "pkgs (snd (Refresh a fe)) = fe_Parsed fe"
    and "docPkgs (snd (Refresh a fe)) = Map.empty"
  using assms
  by (auto simp: Refresh_def initialize_def parseRepository_def Let_def split: option.splits)

lemma Refresh_succeeded:
  "fst (Refresh a fe) = Inr () \<Longrightarrow> initialized (snd (Refresh a fe))"
  by (auto simp: Refresh_def initialize_def parseRepository_def Let_def split: option.splits)

lemma run_Cons: "run a (c # calls) = run (step a c) calls"
  by (simp add: run_def)

text \<open>Only a \<open>Refresh\<close> that succeeds sets the flag.\<close>

lemma run_noRebuild:
  "\<not> initialized a \<Longrightarrow> noRebuild a calls \<Longrightarrow> \<not> initialized (run a calls)"
proof (induction calls arbitrary: a)
  case Nil
  then show ?case by (simp add: run_def)
next
  case (Cons c calls)
  have "\<not> initialized (step a c) \<and> noRebuild (step a c) calls"
    using Cons.prems by (cases c) (simp_all add: Refresh_failed(1) Close_def)
  then show ?case using Cons.IH by (simp add: run_Cons)
qed

text \<open>
  C8. A \<open>Refresh\<close> that fails leaves the analyzer not initialized, with the packages
  that the broken walk had stored in place of the previous ones and no documentation:
  the state is the one that the same failure leaves in a new analyzer, so nothing of the
  previous model is left. \<open>LookupType\<close> then fails with \<open>NotInitialized\<close>. This lasts through any sequence of
  calls in which no \<open>Refresh\<close> succeeds, and a \<open>Refresh\<close> that succeeds ends it.
\<close>

theorem failed_Refresh_leaves_not_initialized:
  assumes "fst (Refresh a fe) = Inl err"
  shows "\<not> initialized (snd (Refresh a fe))
       \<and> pkgs (snd (Refresh a fe)) = fe_Parsed fe
       \<and> docPkgs (snd (Refresh a fe)) = Map.empty
       \<and> snd (Refresh a fe) = snd (Refresh newAnalyzer fe)
       \<and> LookupType (snd (Refresh a fe)) ord T = Inl NotInitialized
       \<and> (noRebuild (snd (Refresh a fe)) calls \<longrightarrow>
            \<not> initialized (run (snd (Refresh a fe)) calls)
          \<and> LookupType (run (snd (Refresh a fe)) calls) ord T = Inl NotInitialized)
       \<and> (fst (Refresh (run (snd (Refresh a fe)) calls) fe') = Inr () \<longrightarrow>
            initialized (snd (Refresh (run (snd (Refresh a fe)) calls) fe')))"
proof -
  from assms have f: "isl (fst (Refresh a fe))" by simp
  note st = Refresh_failed [OF f]
  have later: "noRebuild (snd (Refresh a fe)) calls \<longrightarrow>
      \<not> initialized (run (snd (Refresh a fe)) calls)"
    using run_noRebuild [OF st(1)] by blast
  have fresh: "snd (Refresh a fe) = snd (Refresh newAnalyzer fe)"
    by (cases a) (simp add: Refresh_def newAnalyzer_def)
  show ?thesis
    using st later fresh by (auto simp: not_initialized_guard(1) Refresh_succeeded)
qed

theorem failed_Refresh_leaves_not_initialized_witness:
  "fst (Refresh demo brokenFrontEnd) = Inl (InitializeFailed ''lstat store: permission denied'')
   \<and> initialized demo
   \<and> \<not> initialized (snd (Refresh demo brokenFrontEnd))
   \<and> pkgs (snd (Refresh demo brokenFrontEnd)) = [''accounts'' \<mapsto> accountsPkg]
   \<and> LookupType (snd (Refresh demo brokenFrontEnd)) [''accounts''] ''UserAccount''
       = Inl NotInitialized
   \<and> noRebuild (snd (Refresh demo brokenFrontEnd))
       [CallLookupType [''accounts''] ''Config'', CallRefresh brokenFrontEnd, CallClose,
        CallGetPackageInfo ''store'']
   \<and> \<not> initialized (run (snd (Refresh demo brokenFrontEnd))
       [CallLookupType [''accounts''] ''Config'', CallRefresh brokenFrontEnd, CallClose,
        CallGetPackageInfo ''store''])
   \<and> fst (Refresh (run (snd (Refresh demo brokenFrontEnd)) [CallClose]) demoFrontEnd) = Inr ()
   \<and> initialized (snd (Refresh (run (snd (Refresh demo brokenFrontEnd)) [CallClose])
       demoFrontEnd))"
proof -
  have h: "fst (Refresh demo brokenFrontEnd)
             = Inl (InitializeFailed ''lstat store: permission denied'')"
    by (simp add: Refresh_def initialize_def parseRepository_def brokenFrontEnd_def)
  have p: "fe_Parsed brokenFrontEnd = [''accounts'' \<mapsto> accountsPkg]"
    by (simp add: brokenFrontEnd_def)
  have n: "noRebuild (snd (Refresh demo brokenFrontEnd))
       [CallLookupType [''accounts''] ''Config'', CallRefresh brokenFrontEnd, CallClose,
        CallGetPackageInfo ''store'']"
    by (simp add: Refresh_fails_iff brokenFrontEnd_def)
  have s: "fst (Refresh (run (snd (Refresh demo brokenFrontEnd)) [CallClose]) demoFrontEnd)
             = Inr ()"
    by (simp add: Refresh_def initialize_def parseRepository_def demoFrontEnd_def Let_def)
  let ?b = "snd (Refresh demo brokenFrontEnd)"
  let ?calls = "[CallLookupType [''accounts''] ''Config'', CallRefresh brokenFrontEnd,
                 CallClose, CallGetPackageInfo ''store'']"
  note t = failed_Refresh_leaves_not_initialized [OF h, of "[''accounts'']" "''UserAccount''"
      ?calls demoFrontEnd]
  note t' = failed_Refresh_leaves_not_initialized [OF h, of "[''accounts'']" "''UserAccount''"
      "[CallClose]" demoFrontEnd]
  from t have a: "\<not> initialized ?b" by blast
  from t have "pkgs ?b = fe_Parsed brokenFrontEnd" by blast
  with p have b: "pkgs ?b = [''accounts'' \<mapsto> accountsPkg]" by simp
  from t have c: "LookupType ?b [''accounts''] ''UserAccount'' = Inl NotInitialized" by blast
  from t have "noRebuild ?b ?calls \<longrightarrow> \<not> initialized (run ?b ?calls)" by blast
  with n have d: "\<not> initialized (run ?b ?calls)" by blast
  from t' have "fst (Refresh (run ?b [CallClose]) demoFrontEnd) = Inr () \<longrightarrow>
      initialized (snd (Refresh (run ?b [CallClose]) demoFrontEnd))" by blast
  with s have e: "initialized (snd (Refresh (run ?b [CallClose]) demoFrontEnd))" by blast
  show ?thesis using h initialized_demo a b c n d s e by blast
qed

text \<open>
  C3. \<open>LookupType\<close>, \<open>ListMethods\<close> and \<open>AnalyzeRepository\<close> test the flag;
  \<open>SearchTypes\<close>, \<open>GetExample\<close> and \<open>GetPackageInfo\<close> do not. On the small
  repository after \<open>Close\<close>, and on an analyzer that has never been built, the three
  unguarded queries return a result or an error other than \<open>NotInitialized\<close>,
  whatever the Unicode mapping \<open>lower\<close> of the library is.
\<close>

theorem queries_without_initialized_guard:
  "initialized demo \<and> \<not> initialized (Close demo)
   \<and> LookupType (Close demo) [''accounts'', ''store''] ''Reader'' = Inl NotInitialized
   \<and> ListMethods (Close demo) [''accounts'', ''store''] ''Reader'' = Inl NotInitialized
   \<and> AnalyzeRepository (Close demo) [''accounts'', ''store'']
       (always [''accounts'', ''store'']) [''accounts'', ''store''] = Inl NotInitialized
   \<and> SearchTypes lower (Close demo) [''accounts'', ''store'']
         (always [''accounts'', ''store'']) [] = Inr []
   \<and> GetExample lower (Close demo) [''accounts'', ''store''] ''Reader''
       = Inl (NoExamplesFound ''Reader'')
   \<and> GetPackageInfo (Close demo) ''store''
       = Inr \<lparr>pi_Name = ''store'', pi_ImportPath = ''store'', pi_Doc = [],
              pi_Files = [''store/store.go''], pi_IsMain = False\<rparr>
   \<and> \<not> initialized newAnalyzer
   \<and> SearchTypes lower newAnalyzer [] (always []) [] = Inr []
   \<and> GetExample lower newAnalyzer [] ''Reader'' = Inl (NoExamplesFound ''Reader'')
   \<and> GetPackageInfo newAnalyzer ''store'' = Inl (PackageNotFound ''store'')"
proof -
  have c: "\<not> initialized (Close demo)" by (simp add: Close_def)
  have pk: "pkgs (Close demo) = [''accounts'' \<mapsto> accountsPkg, ''store'' \<mapsto> storePkg]"
    by (simp add: Close_def pkgs_demo)
  have s: "SearchTypes lower (Close demo) [''accounts'', ''store'']
         (always [''accounts'', ''store'']) [] = Inr []"
    by (simp add: SearchTypes_def pk Names_def Lookup_def accountsPkg_def storePkg_def
        accountsConfig_def userAccount_def storeConfig_def reader_def isTypeName_def
        not_initialized_guard(1) [OF c] ToLower_def)
  have e: "GetExample lower (Close demo) [''accounts'', ''store''] ''Reader''
       = Inl (NoExamplesFound ''Reader'')"
    by code_simp
  have g: "GetPackageInfo (Close demo) ''store''
       = Inr \<lparr>pi_Name = ''store'', pi_ImportPath = ''store'', pi_Doc = [],
              pi_Files = [''store/store.go''], pi_IsMain = False\<rparr>"
    by code_simp
  have n: "\<not> initialized newAnalyzer"
    "SearchTypes lower newAnalyzer [] (always []) [] = Inr []"
    "GetExample lower newAnalyzer [] ''Reader'' = Inl (NoExamplesFound ''Reader'')"
    "GetPackageInfo newAnalyzer ''store'' = Inl (PackageNotFound ''store'')"
    by (simp_all add: newAnalyzer_def SearchTypes_def GetExample_def GetPackageInfo_def)
  show ?thesis
    using initialized_demo c s e g n by (simp add: not_initialized_guard [OF c])
qed

section \<open>Properties of the cache\<close>

lemma sint_sum:
  fixes now d :: "64 word"
  assumes "0 < sint now + sint d" "sint now + sint d < 2 ^ 63"
  shows "sint (now + d) = sint now + sint d"
  using assms by (simp add: sint_word_ariths signed_take_bit_int_eq_self)

text \<open>
  C10, as stated, fails: a positive duration can carry the sum \<open>now + duration\<close> past
  the largest \<open>int64\<close>. With the clock at 1.8e18 ns (January 2027) and the largest
  duration, the stored expiration is negative; the clock is past it at once, and
  \<open>Get\<close> still returns the value, since it expires only entries whose expiration is
  positive.
\<close>

theorem wrapped_expiration_never_expires:
  "0 <s (0x7FFFFFFFFFFFFFFF :: 64 word)
   \<and> data (snd (Set emptyCache ''k'' ''v'' 0x7FFFFFFFFFFFFFFF 1800000000000000000 None)) ''k''
       = Some \<lparr>Value = ''v'', Expiration = 1800000000000000000 + 0x7FFFFFFFFFFFFFFF\<rparr>
   \<and> (1800000000000000000 + 0x7FFFFFFFFFFFFFFF :: 64 word) <s 1800000000000000001
   \<and> Get (snd (Set emptyCache ''k'' ''v'' 0x7FFFFFFFFFFFFFFF 1800000000000000000 None)) ''k''
       1800000000000000001 = Some ''v''"
  by (simp add: Set_def Get_def emptyCache_def Let_def word_sless_alt)

text \<open>
  C10, amended. After \<open>Set(key, value, d)\<close> with \<open>d > 0\<close> whose stored expiration,
  \<open>now + d\<close> computed in \<open>int64\<close>, is positive, \<open>Get(key)\<close> returns the value
  while the clock is at or before the expiration and nothing once it is past; the
  expiration is positive when the clock is not before 1970 and the sum does not wrap
  around. An entry stored with \<open>d \<le> 0\<close> never expires; a \<open>Set\<close> on another key changes nothing for
  \<open>key\<close>; after \<open>Clear\<close>, \<open>Get\<close> finds no key. What \<open>save\<close> returns plays no
  part.
\<close>

theorem cache_expiry:
  fixes now d t :: "64 word"
  shows
  "(0 <s d \<and> 0 <s now + d \<longrightarrow>
      data (snd (Set c key v d now e)) key = Some \<lparr>Value = v, Expiration = now + d\<rparr>
    \<and> Get (snd (Set c key v d now e)) key t = (if t \<le>s now + d then Some v else None))
   \<and> (0 <s d \<and> 0 \<le>s now \<and> sint now + sint d < 2 ^ 63 \<longrightarrow>
        0 <s now + d \<and> sint (now + d) = sint now + sint d)
   \<and> (d \<le>s 0 \<longrightarrow> Get (snd (Set c key v d now e)) key t = Some v)
   \<and> (key' \<noteq> key \<longrightarrow>
        Get (snd (Set (snd (Set c key v d now e)) key' v' d' now' e')) key t
          = Get (snd (Set c key v d now e)) key t)
   \<and> Get (snd (Clear c e)) key t = None"
proof -
  have 1: "data (snd (Set c key v d now e)) key = Some \<lparr>Value = v, Expiration = now + d\<rparr>
    \<and> Get (snd (Set c key v d now e)) key t = (if t \<le>s now + d then Some v else None)"
    if h: "0 <s d" "0 <s now + d"
    using h by (auto simp: Set_def Get_def Let_def word_sless_alt word_sle_eq)
  have 2: "0 <s now + d \<and> sint (now + d) = sint now + sint d"
    if h: "0 <s d" "0 \<le>s now" "sint now + sint d < 2 ^ 63"
  proof -
    from h(1,2) have p: "0 < sint now + sint d" by (simp add: word_sless_alt word_sle_eq)
    then have s: "sint (now + d) = sint now + sint d" using h(3) by (rule sint_sum)
    with p show ?thesis by (simp add: word_sless_alt)
  qed
  have 3: "Get (snd (Set c key v d now e)) key t = Some v" if "d \<le>s 0"
    using that by (auto simp: Set_def Get_def Let_def word_sless_alt word_sle_eq)
  have 4: "Get (snd (Set (snd (Set c key v d now e)) key' v' d' now' e')) key t
          = Get (snd (Set c key v d now e)) key t" if "key' \<noteq> key"
    using that by (simp add: Set_def Get_def Let_def)
  have 5: "Get (snd (Clear c e)) key t = None"
    by (simp add: Clear_def Get_def)
  show ?thesis using 1 2 3 4 5 by blast
qed

theorem cache_expiry_witness:
  "0 <s (3600000000000 :: 64 word)
   \<and> (0 :: 64 word) \<le>s 1800000000000000000
   \<and> sint (1800000000000000000 :: 64 word) + sint (3600000000000 :: 64 word) < 2 ^ 63
   \<and> (0 :: 64 word) <s 1800000000000000000 + 3600000000000
   \<and> Get (snd (Set emptyCache ''k'' ''v'' 3600000000000 1800000000000000000 None)) ''k''
       1800003600000000000 = Some ''v''
   \<and> Get (snd (Set emptyCache ''k'' ''v'' 3600000000000 1800000000000000000 None)) ''k''
       1800003600000000001 = None
   \<and> (0 :: 64 word) \<le>s 0
   \<and> Get (snd (Set emptyCache ''k'' ''v'' 0 1800000000000000000 None)) ''k''
       9000000000000000000 = Some ''v''
   \<and> ''j'' \<noteq> ''k''
   \<and> Get (snd (Set (snd (Set emptyCache ''k'' ''v'' 3600000000000 1800000000000000000 None))
                 ''j'' ''w'' 0 1800000000000000000 None)) ''k'' 1800003600000000000
       = Some ''v''
   \<and> Get (snd (Clear (snd (Set emptyCache ''k'' ''v'' 0 1800000000000000000 None)) None)) ''k''
       1800000000000000001 = None"
proof -
  have h: "0 <s (3600000000000 :: 64 word)"
    "(0 :: 64 word) \<le>s 1800000000000000000"
    "sint (1800000000000000000 :: 64 word) + sint (3600000000000 :: 64 word) < 2 ^ 63"
    "(0 :: 64 word) \<le>s 0" "''j'' \<noteq> ''k''"
    by (simp_all add: word_sless_alt word_sle_eq)
  have le: "(1800003600000000000 :: 64 word) \<le>s 1800000000000000000 + 3600000000000"
    "\<not> (1800003600000000001 :: 64 word) \<le>s 1800000000000000000 + 3600000000000"
    by (simp_all add: word_sle_eq)
  note t = cache_expiry [of 3600000000000 1800000000000000000 emptyCache "''k''" "''v''" None
        _ "''j''" "''w''" 0 1800000000000000000 None]
  from t [of 0] h have pos: "(0 :: 64 word) <s 1800000000000000000 + 3600000000000"
    by blast
  from t [of 1800003600000000000] h pos
  have "Get (snd (Set emptyCache ''k'' ''v'' 3600000000000 1800000000000000000 None)) ''k''
       1800003600000000000
     = (if (1800003600000000000 :: 64 word) \<le>s 1800000000000000000 + 3600000000000
        then Some ''v'' else None)"
    by blast
  with le have a: "Get (snd (Set emptyCache ''k'' ''v'' 3600000000000 1800000000000000000
       None)) ''k'' 1800003600000000000 = Some ''v''"
    by simp
  from t [of 1800003600000000001] h pos
  have "Get (snd (Set emptyCache ''k'' ''v'' 3600000000000 1800000000000000000 None)) ''k''
       1800003600000000001
     = (if (1800003600000000001 :: 64 word) \<le>s 1800000000000000000 + 3600000000000
        then Some ''v'' else None)"
    by blast
  with le have b: "Get (snd (Set emptyCache ''k'' ''v'' 3600000000000 1800000000000000000
       None)) ''k'' 1800003600000000001 = None"
    by simp
  have c: "Get (snd (Set emptyCache ''k'' ''v'' 0 1800000000000000000 None)) ''k''
       9000000000000000000 = Some ''v''"
    using cache_expiry [of 0 1800000000000000000 emptyCache "''k''" "''v''" None
        9000000000000000000 "''j''" "''w''" 0 1800000000000000000 None] h
    by blast
  from t [of 1800003600000000000] h
  have "Get (snd (Set (snd (Set emptyCache ''k'' ''v'' 3600000000000 1800000000000000000
                 None)) ''j'' ''w'' 0 1800000000000000000 None)) ''k'' 1800003600000000000
       = Get (snd (Set emptyCache ''k'' ''v'' 3600000000000 1800000000000000000 None)) ''k''
           1800003600000000000"
    by blast
  with a have d: "Get (snd (Set (snd (Set emptyCache ''k'' ''v'' 3600000000000
       1800000000000000000 None)) ''j'' ''w'' 0 1800000000000000000 None)) ''k''
       1800003600000000000 = Some ''v''"
    by simp
  have e: "Get (snd (Clear (snd (Set emptyCache ''k'' ''v'' 0 1800000000000000000 None)) None))
       ''k'' 1800000000000000001 = None"
    using cache_expiry [of 0 1800000000000000000
        "snd (Set emptyCache ''k'' ''v'' 0 1800000000000000000 None)" "''k''" "''v''" None
        1800000000000000001 "''j''" "''w''" 0 1800000000000000000 None]
    by blast
  show ?thesis using h pos a b c d e by blast
qed

end
